theory Spec2Isabelle
  imports Complex_Main "HOL-Library.Word" "HOL-Library.Multiset"
begin

chapter \<open>The wallet balance checker: model\<close>

text \<open>
  A shallow embedding of \<^verbatim>\<open>src/src/App.tsx\<close> (the current page, which asks the
  wallet provider for priced balances) and of the market table of the earlier page
  that is kept beside it in the repository. Part one holds the definitions, each next
  to the source lines it transcribes; part two holds the proofs.
\<close>

section \<open>JavaScript values\<close>

text \<open>
  A JavaScript string is a sequence of 16-bit code units, and \<^verbatim>\<open>length\<close> counts
  them. String literals of the source are written with \<open>js\<close>; a letter outside ASCII
  is given by its code unit.
\<close>

type_synonym code_unit = "16 word"

type_synonym jsstring = "code_unit list"

definition js :: "string \<Rightarrow> jsstring" where
  "js s = map of_char s"

text \<open>
  A number read from an answer or typed into the source is a finite double, given by
  its value, a rational: comparison of two doubles is comparison of their values, and
  the sign of a difference of doubles is the sign of the exact difference. The two
  zeros are not told apart.
\<close>

type_synonym number = rat

text \<open>
  The result of an addition is a double again: the exact sum rounded to the nearest
  double, to the one with an even significand when two are equally near, and to an
  infinity when the rounded magnitude reaches \<open>2\<^sup>1\<^sup>0\<^sup>2\<^sup>4\<close>. The doubles of magnitude at least
  \<open>2\<^sup>-\<^sup>1\<^sup>0\<^sup>2\<^sup>2\<close> have 53 significant bits, so that they are the multiples of \<open>2\<^sup>e\<^sup>-\<^sup>5\<^sup>2\<close>
  between \<open>2\<^sup>e\<close> and \<open>2\<^sup>e\<^sup>+\<^sup>1\<close>; the smaller ones are the multiples of \<open>2\<^sup>-\<^sup>1\<^sup>0\<^sup>7\<^sup>4\<close>.
\<close>

datatype double = Finite number | PosInfinity | NegInfinity | NaN

fun bit_length :: "nat \<Rightarrow> nat" where
  "bit_length n = (if n = 0 then 0 else Suc (bit_length (n div 2)))"

declare bit_length.simps [simp del]

text \<open>
  For \<open>x > 0\<close>, \<open>floor_log2 x\<close> is the integer \<open>e\<close> with \<open>2\<^sup>e \<le> x < 2\<^sup>e\<^sup>+\<^sup>1\<close>, read off the
  number of bits of the integer part of \<open>x\<close>, or of \<open>1 / x\<close> when \<open>x < 1\<close>.
\<close>

definition floor_log2 :: "number \<Rightarrow> int" where
  "floor_log2 x =
     (if 1 \<le> x then int (bit_length (nat \<lfloor>x\<rfloor>)) - 1
      else - int (bit_length (nat (\<lceil>1 / x\<rceil> - 1))))"

definition round_half_even :: "number \<Rightarrow> int" where
  "round_half_even y =
     (let f = \<lfloor>y\<rfloor>; r = y - of_int f
      in if r < 1 / 2 then f else if 1 / 2 < r then f + 1 else if even f then f else f + 1)"

definition round_double :: "number \<Rightarrow> double" where
  "round_double x =
     (if x = 0 then Finite 0
      else
        (let q = max (floor_log2 \<bar>x\<bar> - 52) (- 1074);
             m = of_int (round_half_even (\<bar>x\<bar> / 2 powi q)) * 2 powi q
         in if 2 ^ 1024 \<le> m then (if x < 0 then NegInfinity else PosInfinity)
            else Finite (if x < 0 then - m else m)))"

text \<open>\<^verbatim>\<open>x + y\<close> on two numbers.\<close>

fun double_plus :: "double \<Rightarrow> double \<Rightarrow> double" where
  "double_plus (Finite a) (Finite b) = round_double (a + b)"
| "double_plus NaN y = NaN"
| "double_plus x NaN = NaN"
| "double_plus PosInfinity NegInfinity = NaN"
| "double_plus NegInfinity PosInfinity = NaN"
| "double_plus PosInfinity y = PosInfinity"
| "double_plus NegInfinity y = NegInfinity"
| "double_plus x PosInfinity = PosInfinity"
| "double_plus x NegInfinity = NegInfinity"

text \<open>
  A field that the provider may send as \<^verbatim>\<open>null\<close> is an option. \<^verbatim>\<open>null\<close> is read as
  the number 0 wherever the source compares or subtracts it.
\<close>

definition ToNumber :: "number option \<Rightarrow> number" where
  "ToNumber v = (case v of Some x \<Rightarrow> x | None \<Rightarrow> 0)"

text \<open>\<^verbatim>\<open>!s\<close> for a value that is a string or undefined: true when there is nothing in it.\<close>

definition falsy :: "jsstring option \<Rightarrow> bool" where
  "falsy v = (case v of None \<Rightarrow> True | Some s \<Rightarrow> s = [])"

text \<open>\<^verbatim>\<open>a || b\<close> on two such values.\<close>

definition or_else :: "jsstring option \<Rightarrow> jsstring option \<Rightarrow> jsstring option" where
  "or_else a b = (if falsy a then b else a)"

subsection \<open>Regular expressions\<close>

text \<open>
  The part of the regular expression language that the source uses: literal code
  units, classes of ranges, sequence and repetition, matched against the whole input
  (the pattern of the source is anchored by \<^verbatim>\<open>^\<close> and \<^verbatim>\<open>$\<close> and has no flags).
  \<open>Fail\<close>, \<open>Eps\<close> and \<open>Alt\<close> arise while matching. The matcher consumes the input one
  code unit at a time, replacing the expression by what is left to match.
\<close>

datatype regexp =
    Fail
  | Eps
  | Unit code_unit
  | Class "(code_unit \<times> code_unit) list"
  | Seq regexp regexp
  | Alt regexp regexp
  | Star regexp

definition in_ranges :: "(code_unit \<times> code_unit) list \<Rightarrow> code_unit \<Rightarrow> bool" where
  "in_ranges rs c = list_ex (\<lambda>r. fst r \<le> c \<and> c \<le> snd r) rs"

definition Plus :: "regexp \<Rightarrow> regexp" where
  "Plus r = Seq r (Star r)"

fun nullable :: "regexp \<Rightarrow> bool" where
  "nullable Fail = False"
| "nullable Eps = True"
| "nullable (Unit a) = False"
| "nullable (Class rs) = False"
| "nullable (Seq r s) = (nullable r \<and> nullable s)"
| "nullable (Alt r s) = (nullable r \<or> nullable s)"
| "nullable (Star r) = True"

fun deriv :: "code_unit \<Rightarrow> regexp \<Rightarrow> regexp" where
  "deriv c Fail = Fail"
| "deriv c Eps = Fail"
| "deriv c (Unit a) = (if c = a then Eps else Fail)"
| "deriv c (Class rs) = (if in_ranges rs c then Eps else Fail)"
| "deriv c (Seq r s) =
     (if nullable r then Alt (Seq (deriv c r) s) (deriv c s) else Seq (deriv c r) s)"
| "deriv c (Alt r s) = Alt (deriv c r) (deriv c s)"
| "deriv c (Star r) = Seq (deriv c r) (Star r)"

fun regexp_test :: "regexp \<Rightarrow> jsstring \<Rightarrow> bool" where
  "regexp_test r [] = nullable r"
| "regexp_test r (c # cs) = regexp_test (deriv c r) cs"

text \<open>The words of an expression, used to reason about the matcher.\<close>

inductive_set star :: "jsstring set \<Rightarrow> jsstring set" for A :: "jsstring set" where
  star_empty: "[] \<in> star A"
| star_step: "u \<in> A \<Longrightarrow> v \<in> star A \<Longrightarrow> u @ v \<in> star A"

fun lang :: "regexp \<Rightarrow> jsstring set" where
  "lang Fail = {}"
| "lang Eps = {[]}"
| "lang (Unit a) = {[a]}"
| "lang (Class rs) = {w. \<exists>c. w = [c] \<and> in_ranges rs c}"
| "lang (Seq r s) = {w. \<exists>u v. w = u @ v \<and> u \<in> lang r \<and> v \<in> lang s}"
| "lang (Alt r s) = lang r \<union> lang s"
| "lang (Star r) = star (lang r)"

section \<open>Address validation\<close>

text \<open>
  \<^verbatim>\<open>
  const isValidEthereumAddress = (address: string) => {
    if (!address) return false
    if (!/^0x[a-fA-F0-9]+$/.test(address)) return false
    return address.length === 42
  }
  \<close>
\<close>

definition address_pattern :: regexp where
  "address_pattern =
     Seq (Unit (of_char CHR ''0''))
       (Seq (Unit (of_char CHR ''x''))
         (Plus (Class [(of_char CHR ''a'', of_char CHR ''f''),
                       (of_char CHR ''A'', of_char CHR ''F''),
                       (of_char CHR ''0'', of_char CHR ''9'')])))"

definition isValidEthereumAddress :: "jsstring \<Rightarrow> bool" where
  "isValidEthereumAddress address =
     (if address = [] then False
      else if \<not> regexp_test address_pattern address then False
      else length address = 42)"

text \<open>
  The form as the specification words it: the two code units \<open>0x\<close>, then hexadecimal
  digits only, at least one.
\<close>

definition hex_digit :: "code_unit \<Rightarrow> bool" where
  "hex_digit c =
     ((of_char CHR ''0'' \<le> c \<and> c \<le> of_char CHR ''9'') \<or>
      (of_char CHR ''a'' \<le> c \<and> c \<le> of_char CHR ''f'') \<or>
      (of_char CHR ''A'' \<le> c \<and> c \<le> of_char CHR ''F''))"

definition spec_address_form :: "jsstring \<Rightarrow> bool" where
  "spec_address_form s =
     (take 2 s = js ''0x'' \<and> drop 2 s \<noteq> [] \<and> list_all hex_digit (drop 2 s))"

section \<open>Formatting an amount\<close>

subsection \<open>The number formatting of the run time\<close>

text \<open>
  The source formats with \<^verbatim>\<open>Number.prototype.toExponential\<close>, \<^verbatim>\<open>toPrecision\<close> and
  \<^verbatim>\<open>toFixed\<close> and with \<^verbatim>\<open>Intl.NumberFormat\<close> for the locale \<^verbatim>\<open>en-US\<close>. They belong to
  the run time, not to the repository, and are written here after the language
  definition, on the exact value of the number. Their results hold ASCII characters
  only and are given as \<open>string\<close>; \<open>js\<close> turns them into code units.

  \<open>digits n\<close> is the decimal representation of \<open>n\<close>, without leading zeros.
\<close>

definition digit :: "nat \<Rightarrow> char" where
  "digit d = ''0123456789'' ! d"

fun digits :: "nat \<Rightarrow> string" where
  "digits n = (if n < 10 then [digit n] else digits (n div 10) @ [digit (n mod 10)])"

declare digits.simps [simp del]

text \<open>
  For \<open>x > 0\<close>, \<open>floor_log10 x\<close> is the integer \<open>e\<close> with \<open>10\<^sup>e \<le> x < 10\<^sup>e\<^sup>+\<^sup>1\<close>, read off the
  number of digits of the integer part of \<open>x\<close>, or of \<open>1 / x\<close> when \<open>x < 1\<close>.
\<close>

definition floor_log10 :: "number \<Rightarrow> int" where
  "floor_log10 x =
     (if 1 \<le> x then int (length (digits (nat \<lfloor>x\<rfloor>))) - 1
      else - int (length (digits (nat (\<lceil>1 / x\<rceil> - 1)))))"

text \<open>Rounding to the nearest integer, the larger one of two that are equally near.\<close>

definition round_half_up :: "number \<Rightarrow> nat" where
  "round_half_up x = nat \<lfloor>x + 1 / 2\<rfloor>"

text \<open>
  The language definition asks for integers \<open>e\<close> and \<open>n\<close> with \<open>10\<^sup>f \<le> n < 10\<^sup>f\<^sup>+\<^sup>1\<close> such that
  \<open>n \<times> 10\<^sup>e\<^sup>-\<^sup>f\<close> is as close to \<open>x\<close> as possible, the larger value if there are two.
  \<open>scientific f x\<close> computes them for \<open>x > 0\<close>: it rounds \<open>x\<close> scaled to \<open>f + 1\<close> digits
  before the point, and moves to the next exponent when the rounding carries.
\<close>

definition scientific :: "nat \<Rightarrow> number \<Rightarrow> int \<times> nat" where
  "scientific f x =
     (let e = floor_log10 x;
          n = round_half_up (x / 10 powi (e - int f))
      in if n = 10 ^ (f + 1) then (e + 1, 10 ^ f) else (e, n))"

definition exponent_part :: "int \<Rightarrow> string" where
  "exponent_part e = ''e'' @ (if e < 0 then ''-'' else ''+'') @ digits (nat \<bar>e\<bar>)"

definition sign_part :: "number \<Rightarrow> string" where
  "sign_part x = (if x < 0 then ''-'' else [])"

text \<open>\<^verbatim>\<open>x.toExponential(f)\<close>: one digit, the point, \<open>f\<close> digits and the exponent.\<close>

definition toExponential :: "nat \<Rightarrow> number \<Rightarrow> string" where
  "toExponential f x =
     (let (e, n) = (if x = 0 then (0, 0) else scientific f \<bar>x\<bar>);
          m = (if x = 0 then replicate (f + 1) CHR ''0'' else digits n);
          m = (if f \<noteq> 0 then take 1 m @ ''.'' @ drop 1 m else m)
      in sign_part x @ m @ exponent_part e)"

text \<open>
  \<^verbatim>\<open>x.toPrecision(p)\<close>: \<open>p\<close> significant digits, in exponential notation when the
  exponent is below \<open>-6\<close> or at least \<open>p\<close>, and in plain decimal notation otherwise.
\<close>

definition toPrecision :: "nat \<Rightarrow> number \<Rightarrow> string" where
  "toPrecision p x =
     (let (e, n) = (if x = 0 then (0, 0) else scientific (p - 1) \<bar>x\<bar>);
          m = (if x = 0 then replicate p CHR ''0'' else digits n)
      in sign_part x @
         (if e < - 6 \<or> int p \<le> e then
            (if p \<noteq> 1 then take 1 m @ ''.'' @ drop 1 m else m) @ exponent_part e
          else if e = int p - 1 then m
          else if 0 \<le> e then take (nat e + 1) m @ ''.'' @ drop (nat e + 1) m
          else ''0.'' @ replicate (nat (- (e + 1))) CHR ''0'' @ m))"

text \<open>
  \<^verbatim>\<open>x.toFixed(f)\<close> for \<open>\<bar>x\<bar> < 10\<^sup>2\<^sup>1\<close>, the only range in which the source calls it: the
  integer nearest to \<open>x \<times> 10\<^sup>f\<close>, padded with zeros to more than \<open>f\<close> digits, with the point
  before the last \<open>f\<close> digits.
\<close>

definition toFixed :: "nat \<Rightarrow> number \<Rightarrow> string" where
  "toFixed f x =
     (let n = round_half_up (\<bar>x\<bar> * 10 ^ f);
          m = digits n;
          m = (if f \<noteq> 0 then
                 (let m = (if length m \<le> f then replicate (f + 1 - length m) CHR ''0'' @ m else m);
                      k = length m
                  in take (k - f) m @ ''.'' @ drop (k - f) m)
               else m)
      in sign_part x @ m)"

text \<open>
  \<^verbatim>\<open>new Intl.NumberFormat('en-US', {maximumFractionDigits: k}).format(x)\<close>: the number
  rounded to \<open>k\<close> fraction digits (half away from zero), the integer part in groups of
  three separated by commas, the fraction without trailing zeros and without the
  point when nothing is left of it.
\<close>

function group3 :: "string \<Rightarrow> string" where
  "group3 ds =
     (if length ds \<le> 3 then ds
      else group3 (take (length ds - 3) ds) @ '','' @ drop (length ds - 3) ds)"
  by pat_completeness auto
termination
  by (relation "measure length") auto

declare group3.simps [simp del]

definition Intl_NumberFormat_format :: "nat \<Rightarrow> number \<Rightarrow> string" where
  "Intl_NumberFormat_format maximumFractionDigits x =
     (let n = round_half_up (\<bar>x\<bar> * 10 ^ maximumFractionDigits);
          i = n div 10 ^ maximumFractionDigits;
          r = n mod 10 ^ maximumFractionDigits;
          fr = replicate (maximumFractionDigits - length (digits r)) CHR ''0'' @ digits r;
          fr = rev (dropWhile (\<lambda>c. c = CHR ''0'') (rev fr))
      in sign_part x @ group3 (digits i) @ (if fr = [] then [] else ''.'' @ fr))"

subsection \<open>The function of the source\<close>

text \<open>
  \<^verbatim>\<open>
  const formatAmount = (amount: number) => {
    if (amount === 0) return '0'
    if (amount < 0.0001) return amount.toExponential(4)
    if (amount < 1) return amount.toPrecision(4)
    if (amount < 1000) return amount.toFixed(4)
    return new Intl.NumberFormat('en-US', {
      maximumFractionDigits: 2
    }).format(amount)
  }
  \<close>
  The literal \<^verbatim>\<open>0.0001\<close> is the double next above \<open>1 / 10000\<close>, and no double lies
  between the two, so that a double is below the literal exactly when its value is
  below \<open>1 / 10000\<close>.
\<close>

definition formatAmount :: "number \<Rightarrow> jsstring" where
  "formatAmount amount =
     (if amount = 0 then js ''0''
      else if amount < 1 / 10000 then js (toExponential 4 amount)
      else if amount < 1 then js (toPrecision 4 amount)
      else if amount < 1000 then js (toFixed 4 amount)
      else js (Intl_NumberFormat_format 2 amount))"

subsection \<open>The forms the specification names\<close>

text \<open>
  The shapes of a formatted amount, as predicates on the text: exponential notation
  with \<open>f\<close> fraction digits, fixed notation with \<open>f\<close> decimal places, plain notation with
  \<open>p\<close> significant digits, and the grouped form with at most \<open>m\<close> fraction digits. A
  leading minus sign is allowed.
\<close>

definition is_digit :: "char \<Rightarrow> bool" where
  "is_digit c = (c \<in> set ''0123456789'')"

definition without_sign :: "string \<Rightarrow> string" where
  "without_sign s = (if take 1 s = ''-'' then drop 1 s else s)"

definition before :: "char \<Rightarrow> string \<Rightarrow> string" where
  "before c s = takeWhile (\<lambda>x. x \<noteq> c) s"

definition after :: "char \<Rightarrow> string \<Rightarrow> string" where
  "after c s = drop 1 (dropWhile (\<lambda>x. x \<noteq> c) s)"

definition exponential_form :: "nat \<Rightarrow> string \<Rightarrow> bool" where
  "exponential_form f s =
     (let t = without_sign s; mant = before CHR ''e'' t; ex = after CHR ''e'' t
      in CHR ''e'' \<in> set t \<and>
         length (before CHR ''.'' mant) = 1 \<and> list_all is_digit (before CHR ''.'' mant) \<and>
         CHR ''.'' \<in> set mant \<and>
         length (after CHR ''.'' mant) = f \<and> list_all is_digit (after CHR ''.'' mant) \<and>
         (take 1 ex = ''+'' \<or> take 1 ex = ''-'') \<and>
         drop 1 ex \<noteq> [] \<and> list_all is_digit (drop 1 ex))"

definition fixed_form :: "nat \<Rightarrow> string \<Rightarrow> bool" where
  "fixed_form f s =
     (let t = without_sign s
      in before CHR ''.'' t \<noteq> [] \<and> list_all is_digit (before CHR ''.'' t) \<and>
         CHR ''.'' \<in> set t \<and>
         length (after CHR ''.'' t) = f \<and> list_all is_digit (after CHR ''.'' t))"

definition significant_digits :: "string \<Rightarrow> string" where
  "significant_digits s = dropWhile (\<lambda>c. c = CHR ''0'') (filter is_digit s)"

definition precision_form :: "nat \<Rightarrow> string \<Rightarrow> bool" where
  "precision_form p s =
     (let t = without_sign s
      in list_all (\<lambda>c. is_digit c \<or> c = CHR ''.'') t \<and>
         length (significant_digits t) = p)"

function grouped :: "string \<Rightarrow> bool" where
  "grouped s =
     (if length s \<le> 3 then s \<noteq> [] \<and> list_all is_digit s
      else grouped (take (length s - 4) s) \<and> s ! (length s - 4) = CHR '','' \<and>
           list_all is_digit (drop (length s - 3) s))"
  by pat_completeness auto
termination
  by (relation "measure length") auto

declare grouped.simps [simp del]

definition grouped_form :: "nat \<Rightarrow> string \<Rightarrow> bool" where
  "grouped_form m s =
     (let t = without_sign s
      in grouped (before CHR ''.'' t) \<and>
         (CHR ''.'' \<in> set t \<longrightarrow>
            1 \<le> length (after CHR ''.'' t) \<and> length (after CHR ''.'' t) \<le> m \<and>
            list_all is_digit (after CHR ''.'' t)))"

section \<open>Tokens, provider results and the page state\<close>

text \<open>
  The interface \<^verbatim>\<open>TokenBalance\<close> of the source. The provider sends \<^verbatim>\<open>usd_value: null\<close>
  for a token it has no price for, and the declared type \<^verbatim>\<open>number\<close> is not checked
  at run time, so the field is an option here.
\<close>

record TokenBalance =
  token_address :: jsstring
  symbol :: jsstring
  name :: jsstring
  logo :: "jsstring option"
  thumbnail :: "jsstring option"
  decimals :: number
  balance :: jsstring
  balance_formatted :: jsstring
  possible_spam :: bool
  verified_contract :: bool
  usd_price :: number
  usd_value :: "number option"
  native_token :: bool
  portfolio_percentage :: number
  usd_price_24hr_percent_change :: number
  usd_price_24hr_usd_change :: number

text \<open>
  What the \<^verbatim>\<open>catch\<close> block reads of the value thrown inside \<^verbatim>\<open>try\<close>:
  \<^verbatim>\<open>error.response?.status\<close>, \<^verbatim>\<open>error.response?.data?.message\<close> and \<^verbatim>\<open>error.message\<close>.
  A request that the HTTP client rejects carries a response when the provider answered
  and none on a network fault; an exception raised while the answer is processed has
  no response either.
\<close>

record error_response =
  status :: int
  data_message :: "jsstring option"

record thrown =
  response :: "error_response option"
  message :: "jsstring option"

text \<open>A request goes to the wallet provider with a path and the chain parameter.\<close>

record request =
  url :: jsstring
  chain_param :: jsstring

text \<open>
  The outcome of the awaited request: \<^verbatim>\<open>response.data.result\<close> when it resolves, or
  the value thrown.
\<close>

datatype http_result = Resolved "TokenBalance list" | Rejected thrown

text \<open>The \<^verbatim>\<open>useState\<close> cells of the component \<^verbatim>\<open>App\<close>.\<close>

record app_state =
  address :: jsstring
  loading :: bool
  balances :: "TokenBalance list"
  allBalances :: "TokenBalance list"
  showAll :: bool
  totalValue :: double
  error :: "jsstring option"
  showSuggestions :: bool
  recentAddresses :: "jsstring list"

text \<open>
  The page and its surroundings: the state cells, the array stored under the key
  \<^verbatim>\<open>recentAddresses\<close> of \<^verbatim>\<open>localStorage\<close> (the source stores its JSON text and parses
  it back), the requests sent so far, and the request that a call of \<^verbatim>\<open>fetchBalances\<close>
  started from the button is suspended on, if any.
\<close>

record world =
  ui :: app_state
  stored_recentAddresses :: "jsstring list option"
  sent :: "request list"
  awaiting :: "request option"

definition initial_state :: app_state where
  "initial_state =
     \<lparr>address = [], loading = False, balances = [], allBalances = [], showAll = False,
      totalValue = Finite 0, error = None, showSuggestions = False, recentAddresses = []\<rparr>"

definition initial_world :: "jsstring list option \<Rightarrow> world" where
  "initial_world stored =
     \<lparr>ui = initial_state, stored_recentAddresses = stored, sent = [], awaiting = None\<rparr>"

section \<open>The recent addresses\<close>

text \<open>
  \<^verbatim>\<open>
  const addToRecent = (newAddress: string) => {
    const updated = [
      newAddress,
      ...recentAddresses.filter(addr => addr !== newAddress)
    ].slice(0, 5)
    setRecentAddresses(updated)
    localStorage.setItem('recentAddresses', JSON.stringify(updated))
  }
  \<close>
\<close>

definition updated_recent :: "jsstring \<Rightarrow> jsstring list \<Rightarrow> jsstring list" where
  "updated_recent newAddress recent =
     take 5 (newAddress # filter (\<lambda>addr. addr \<noteq> newAddress) recent)"

definition addToRecent :: "jsstring \<Rightarrow> world \<Rightarrow> world" where
  "addToRecent newAddress w =
     (let updated = updated_recent newAddress (recentAddresses (ui w))
      in w\<lparr>ui := (ui w)\<lparr>recentAddresses := updated\<rparr>,
           stored_recentAddresses := Some updated\<rparr>)"

section \<open>Sorting\<close>

text \<open>
  \<^verbatim>\<open>Array.prototype.sort(compare)\<close> is stable, and \<open>a\<close> stays before \<open>b\<close> unless
  \<open>compare(a, b) > 0\<close>. For a comparison that orders its arguments consistently the
  result is the stable sorted arrangement, which insertion from the right computes.
\<close>

fun insert_by :: "('a \<Rightarrow> 'a \<Rightarrow> number) \<Rightarrow> 'a \<Rightarrow> 'a list \<Rightarrow> 'a list" where
  "insert_by cmp x [] = [x]"
| "insert_by cmp x (y # ys) =
     (if cmp x y \<le> 0 then x # y # ys else y # insert_by cmp x ys)"

definition array_sort :: "('a \<Rightarrow> 'a \<Rightarrow> number) \<Rightarrow> 'a list \<Rightarrow> 'a list" where
  "array_sort cmp xs = foldr (insert_by cmp) xs []"

section \<open>Fetching the balances\<close>

text \<open>The messages of the source; the Turkish letters are given by their code units.\<close>

definition msg_enter_address :: jsstring where
  "msg_enter_address =
     js ''L'' @ [0xFC] @ js ''tfen bir c'' @ [0xFC] @ js ''zdan adresi girin''"

definition msg_key_not_found :: jsstring where
  "msg_key_not_found =
     js ''Moralis API anahtar'' @ [0x131] @ js '' bulunamad'' @ [0x131] @ js ''!''"

definition msg_invalid_address :: jsstring where
  "msg_invalid_address =
     js ''Ge'' @ [0xE7] @ js ''ersiz Ethereum adresi! Adres 0x ile ba'' @ [0x15F] @
     js ''lamal'' @ [0x131] @ js '' ve 42 karakter uzunlu'' @ [0x11F] @
     js ''unda olmal'' @ [0x131] @ js ''d'' @ [0x131] @ js ''r.''"

definition msg_generic :: jsstring where
  "msg_generic =
     js ''Veri '' @ [0xE7] @ js ''ekilirken bir hata olu'' @ [0x15F] @ js ''tu''"

definition msg_rate_limit :: jsstring where
  "msg_rate_limit =
     js ''API istek limiti a'' @ [0x15F] @ [0x131] @ js ''ld'' @ [0x131] @ js ''. L'' @
     [0xFC] @ js ''tfen biraz bekleyip tekrar deneyin.''"

text \<open>
  \<^verbatim>\<open>
  let errorMessage = 'Veri cekilirken bir hata olustu'
  if (error.response?.status === 429) {
    errorMessage = 'API istek limiti asildi. Lutfen biraz bekleyip tekrar deneyin.'
  } else {
    errorMessage = error.response?.data?.message || error.message || errorMessage
  }
  setError(`Hata: ${errorMessage}`)
  \<close>
\<close>

definition response_status :: "thrown \<Rightarrow> int option" where
  "response_status e = map_option status (response e)"

definition response_data_message :: "thrown \<Rightarrow> jsstring option" where
  "response_data_message e = (case response e of None \<Rightarrow> None | Some r \<Rightarrow> data_message r)"

definition errorMessage :: "thrown \<Rightarrow> jsstring" where
  "errorMessage e =
     (if response_status e = Some 429 then msg_rate_limit
      else case or_else (or_else (response_data_message e) (message e)) (Some msg_generic) of
             Some m \<Rightarrow> m
           | None \<Rightarrow> msg_generic)"

definition error_text :: "thrown \<Rightarrow> jsstring" where
  "error_text e = js ''Hata: '' @ errorMessage e"

text \<open>
  The function \<^verbatim>\<open>fetchBalances\<close> runs in two parts. \<open>fetchBalances_submit\<close> is the code
  up to the \<^verbatim>\<open>await\<close>: the three checks in the order of the source, each ending the
  call with a message, then \<^verbatim>\<open>addToRecent\<close>, the reset of the lists and the request,
  on which the call is suspended. \<open>key\<close> is \<^verbatim>\<open>MORALIS_API_KEY\<close>, undefined when the
  environment has none.
\<close>

definition tokens_request :: "jsstring \<Rightarrow> request" where
  "tokens_request addr = \<lparr>url = js ''/wallets/'' @ addr @ js ''/tokens'', chain_param = js ''0x1''\<rparr>"

definition setError :: "jsstring option \<Rightarrow> world \<Rightarrow> world" where
  "setError e w = w\<lparr>ui := (ui w)\<lparr>error := e\<rparr>\<rparr>"

datatype suspended = Returned world | Awaiting request world

definition fetchBalances_submit :: "jsstring option \<Rightarrow> world \<Rightarrow> suspended" where
  "fetchBalances_submit key w =
     (if address (ui w) = [] then Returned (setError (Some msg_enter_address) w)
      else if falsy key then Returned (setError (Some msg_key_not_found) w)
      else if \<not> isValidEthereumAddress (address (ui w)) then
        Returned (setError (Some msg_invalid_address) w)
      else
        (let w1 = addToRecent (address (ui w)) w;
             rq = tokens_request (address (ui w))
         in Awaiting rq
              (w1\<lparr>ui := (ui w1)\<lparr>loading := True, error := None, balances := [],
                                    allBalances := [], showAll := False\<rparr>,
                    sent := sent w1 @ [rq]\<rparr>)))"

text \<open>
  \<open>fetchBalances_settle\<close> is the code after the \<^verbatim>\<open>await\<close>: the body of \<^verbatim>\<open>try\<close> when the
  request resolved, the \<^verbatim>\<open>catch\<close> block otherwise, and \<^verbatim>\<open>finally\<close>.
  \<^verbatim>\<open>
  const validTokens = response.data.result.filter((token: TokenBalance) =>
    !token.possible_spam && token.usd_value > 0)
  const sortedBalances = validTokens.sort((a, b) => b.usd_value - a.usd_value)
  setAllBalances(sortedBalances)
  const filteredBalances = sortedBalances.filter((token) => token.usd_value >= 10)
  setBalances(filteredBalances)
  const total = sortedBalances.reduce((acc, token) => acc + token.usd_value, 0)
  setTotalValue(total)
  \<close>
\<close>

definition usd :: "TokenBalance \<Rightarrow> number" where
  "usd token = ToNumber (usd_value token)"

definition validTokens :: "TokenBalance list \<Rightarrow> TokenBalance list" where
  "validTokens result = filter (\<lambda>token. \<not> possible_spam token \<and> usd token > 0) result"

definition sortedBalances :: "TokenBalance list \<Rightarrow> TokenBalance list" where
  "sortedBalances result = array_sort (\<lambda>a b. usd b - usd a) (validTokens result)"

definition filteredBalances :: "TokenBalance list \<Rightarrow> TokenBalance list" where
  "filteredBalances bs = filter (\<lambda>token. usd token \<ge> 10) bs"

definition total_usd :: "TokenBalance list \<Rightarrow> double" where
  "total_usd bs = foldl (\<lambda>acc token. double_plus acc (Finite (usd token))) (Finite 0) bs"

definition fetchBalances_settle :: "http_result \<Rightarrow> world \<Rightarrow> world" where
  "fetchBalances_settle r w =
     (case r of
        Resolved result \<Rightarrow>
          w\<lparr>ui := (ui w)\<lparr>allBalances := sortedBalances result,
                           balances := filteredBalances (sortedBalances result),
                           totalValue := total_usd (sortedBalances result),
                           loading := False\<rparr>\<rparr>
      | Rejected e \<Rightarrow>
          w\<lparr>ui := (ui w)\<lparr>error := Some (error_text e), loading := False\<rparr>\<rparr>)"

text \<open>One whole call: \<open>net\<close> gives the outcome of the request sent.\<close>

definition fetchBalances :: "jsstring option \<Rightarrow> (request \<Rightarrow> http_result) \<Rightarrow> world \<Rightarrow> world" where
  "fetchBalances key net w =
     (case fetchBalances_submit key w of
        Returned w1 \<Rightarrow> w1
      | Awaiting rq w1 \<Rightarrow> fetchBalances_settle (net rq) w1)"

section \<open>What is on the page\<close>

text \<open>
  The part of the rendering that decides what is shown under the input: the text
  \<^verbatim>\<open>Loading...\<close> while loading, else the table with the chosen list and the total
  when \<^verbatim>\<open>balances\<close> is not empty, else nothing. The error box is shown when \<^verbatim>\<open>error\<close>
  is set.
\<close>

datatype body = Loading | Table "TokenBalance list" double | Blank

record page =
  error_box :: "jsstring option"
  shown :: body

definition render :: "app_state \<Rightarrow> page" where
  "render s =
     \<lparr>error_box = (if falsy (error s) then None else error s),
      shown = (if loading s then Loading
               else if length (balances s) > 0 then
                 Table (if showAll s then allBalances s else balances s) (totalValue s)
               else Blank)\<rparr>"

section \<open>The events of the page\<close>

text \<open>
  Every handler of the component, as one step of the page. State updates made in one
  run of a handler, and those made after the \<^verbatim>\<open>await\<close>, are committed together. The
  button is disabled while \<^verbatim>\<open>loading\<close>, and a suggestion can be picked only from the
  list on display.
\<close>

datatype event =
    Mount
  | Change jsstring
  | Focus
  | ClickOutside
  | Pick jsstring
  | ToggleShowAll
  | ClickCheck
  | Settle http_result

definition step :: "jsstring option \<Rightarrow> event \<Rightarrow> world \<Rightarrow> world" where
  "step key ev w =
     (case ev of
        Mount \<Rightarrow>
          (case stored_recentAddresses w of
             None \<Rightarrow> w
           | Some saved \<Rightarrow> w\<lparr>ui := (ui w)\<lparr>recentAddresses := saved\<rparr>\<rparr>)
      | Change v \<Rightarrow> w\<lparr>ui := (ui w)\<lparr>address := v\<rparr>\<rparr>
      | Focus \<Rightarrow> w\<lparr>ui := (ui w)\<lparr>showSuggestions := True\<rparr>\<rparr>
      | ClickOutside \<Rightarrow> w\<lparr>ui := (ui w)\<lparr>showSuggestions := False\<rparr>\<rparr>
      | Pick addr \<Rightarrow>
          (if showSuggestions (ui w) \<and> addr \<in> set (recentAddresses (ui w))
           then w\<lparr>ui := (ui w)\<lparr>address := addr, showSuggestions := False\<rparr>\<rparr>
           else w)
      | ToggleShowAll \<Rightarrow> w\<lparr>ui := (ui w)\<lparr>showAll := \<not> showAll (ui w)\<rparr>\<rparr>
      | ClickCheck \<Rightarrow>
          (if loading (ui w) then w
           else case fetchBalances_submit key w of
                  Returned w1 \<Rightarrow> w1
                | Awaiting rq w1 \<Rightarrow> w1\<lparr>awaiting := Some rq\<rparr>)
      | Settle r \<Rightarrow>
          (if awaiting w = None then w
           else (fetchBalances_settle r w)\<lparr>awaiting := None\<rparr>))"

definition run :: "jsstring option \<Rightarrow> world \<Rightarrow> event list \<Rightarrow> world" where
  "run key w evs = foldl (\<lambda>w ev. step key ev w) w evs"

section \<open>The market table\<close>

text \<open>
  The earlier page, kept in the repository beside the configuration of the build tool,
  collects the pages of the market listing in the state cell \<^verbatim>\<open>topTokens\<close>, an object
  used as a table from the provider's token id to an entry:
  \<^verbatim>\<open>
  setTopTokens(prevTokens => {
    const updatedTokens = { ...prevTokens };
    response.data.forEach((token: any) => {
      updatedTokens[token.id] = {
        id: token.id,
        symbol: token.symbol.toUpperCase(),
        name: token.name,
        current_price: token.current_price || 0,
        image: token.image
      };
    });
    return updatedTokens;
  });
  \<close>
  The table is a map; an entry of a page is \<^verbatim>\<open>token\<close>, with a price that may be
  \<^verbatim>\<open>null\<close>. The case mapping of the run time is a parameter. Two names of the
  interface \<^verbatim>\<open>TopToken\<close> carry a prime, since \<open>id\<close> is the identity of HOL and
  \<open>symbol\<close> and \<open>name\<close> are fields of \<open>TokenBalance\<close>.
\<close>

record TopToken =
  id' :: jsstring
  symbol' :: jsstring
  name' :: jsstring
  image :: jsstring
  current_price :: number

record market_token =
  token_id :: jsstring
  token_symbol :: jsstring
  token_name :: jsstring
  token_current_price :: "number option"
  token_image :: jsstring

type_synonym market_table = "jsstring \<rightharpoonup> TopToken"

definition top_token :: "(jsstring \<Rightarrow> jsstring) \<Rightarrow> market_token \<Rightarrow> TopToken" where
  "top_token toUpperCase token =
     \<lparr>id' = token_id token,
      symbol' = toUpperCase (token_symbol token),
      name' = token_name token,
      image = token_image token,
      current_price = ToNumber (token_current_price token)\<rparr>"

fun forEach_upsert :: "(jsstring \<Rightarrow> jsstring) \<Rightarrow> market_token list \<Rightarrow> market_table \<Rightarrow> market_table" where
  "forEach_upsert toUpperCase [] updatedTokens = updatedTokens"
| "forEach_upsert toUpperCase (token # rest) updatedTokens =
     forEach_upsert toUpperCase rest
       (updatedTokens(token_id token \<mapsto> top_token toUpperCase token))"

definition upsert_page :: "(jsstring \<Rightarrow> jsstring) \<Rightarrow> market_token list \<Rightarrow> market_table \<Rightarrow> market_table" where
  "upsert_page toUpperCase page prevTokens = forEach_upsert toUpperCase page prevTokens"

section \<open>The agreement of the two lists\<close>

text \<open>
  The property of the state that every step keeps: \<^verbatim>\<open>balances\<close> is the part of
  \<^verbatim>\<open>allBalances\<close> worth at least 10, and \<^verbatim>\<open>allBalances\<close> descends by USD value.
\<close>

definition lists_agree :: "app_state \<Rightarrow> bool" where
  "lists_agree s =
     (balances s = filter (\<lambda>t. usd t \<ge> 10) (allBalances s) \<and>
      sorted_wrt (\<lambda>a b. usd a \<ge> usd b) (allBalances s))"

section \<open>Example data\<close>

text \<open>Concrete inputs on which the theorems of part two are exercised.\<close>

definition example_address :: jsstring where
  "example_address = js ''0x52908400098527886E0F7030069857D2E4169EE7''"

definition example_token :: "string \<Rightarrow> bool \<Rightarrow> number option \<Rightarrow> TokenBalance" where
  "example_token s spam v =
     \<lparr>token_address = js ''0x'' @ js s, symbol = js s, name = js s, logo = None,
      thumbnail = None, decimals = 18, balance = js ''1000000000000000000'',
      balance_formatted = js ''1'', possible_spam = spam, verified_contract = True,
      usd_price = ToNumber v, usd_value = v, native_token = False,
      portfolio_percentage = 0, usd_price_24hr_percent_change = 0,
      usd_price_24hr_usd_change = 0\<rparr>"

definition example_result :: "TokenBalance list" where
  "example_result =
     [example_token ''AAA'' False (Some 5), example_token ''BBB'' False (Some 15),
      example_token ''SPAM'' True (Some 100), example_token ''CCC'' False (Some 10),
      example_token ''NUL'' False None, example_token ''ZERO'' False (Some 0)]"

definition example_key :: "jsstring option" where
  "example_key = Some (js ''key'')"

definition example_world :: world where
  "example_world = step example_key (Change example_address) (initial_world None)"

definition example_net :: "request \<Rightarrow> http_result" where
  "example_net rq = Resolved example_result"

text \<open>An answer with the doubles written \<^verbatim>\<open>0.1\<close> and \<^verbatim>\<open>0.2\<close>.\<close>

definition example_fractions :: "TokenBalance list" where
  "example_fractions =
     [example_token ''TEN'' False (Some (3602879701896397 / 36028797018963968)),
      example_token ''FIF'' False (Some (3602879701896397 / 18014398509481984))]"

definition fraction_net :: "request \<Rightarrow> http_result" where
  "fraction_net rq = Resolved example_fractions"

definition example_recent :: "jsstring list" where
  "example_recent = [js ''0x1'', js ''0x2'', js ''0x3'', js ''0x4'', js ''0x5'']"

definition example_events :: "event list" where
  "example_events = [Change example_address, ClickCheck, Settle (Resolved example_result)]"

definition stale_world :: world where
  "stale_world = run example_key (initial_world None) (example_events @ [Change (js ''0x123'')])"

definition example_fault :: thrown where
  "example_fault = \<lparr>response = None, message = Some (js ''Network Error'')\<rparr>"

definition example_429 :: thrown where
  "example_429 =
     \<lparr>response = Some \<lparr>status = 429, data_message = Some (js ''Too many requests'')\<rparr>,
      message = Some (js ''Request failed with status code 429'')\<rparr>"

definition example_401 :: thrown where
  "example_401 =
     \<lparr>response = Some \<lparr>status = 401, data_message = Some (js ''Invalid key'')\<rparr>,
      message = Some (js ''Request failed with status code 401'')\<rparr>"

definition example_empty :: thrown where
  "example_empty = \<lparr>response = Some \<lparr>status = 500, data_message = Some []\<rparr>, message = None\<rparr>"

definition example_upper :: "jsstring \<Rightarrow> jsstring" where
  "example_upper s =
     map (\<lambda>c. if of_char CHR ''a'' \<le> c \<and> c \<le> of_char CHR ''z'' then c - 32 else c) s"

definition example_coin :: "string \<Rightarrow> string \<Rightarrow> number option \<Rightarrow> market_token" where
  "example_coin i s p =
     \<lparr>token_id = js i, token_symbol = js s, token_name = js i, token_current_price = p,
      token_image = js ''https://img/'' @ js i\<rparr>"

definition example_page :: "market_token list" where
  "example_page =
     [example_coin ''bitcoin'' ''btc'' (Some 60000), example_coin ''ethereum'' ''eth'' (Some 3000),
      example_coin ''unpriced'' ''unp'' None, example_coin ''bitcoin'' ''btc'' (Some 60001)]"

chapter \<open>The wallet balance checker: proofs\<close>

section \<open>The matcher decides membership in the language\<close>

lemma nullable_lang: "nullable r \<longleftrightarrow> [] \<in> lang r"
  by (induction r) (auto intro: star.star_empty)

lemma star_cons_split:
  assumes "x \<in> star A" and "x = c # w"
  shows "\<exists>u v. w = u @ v \<and> c # u \<in> A \<and> v \<in> star A"
  using assms
proof (induction arbitrary: w rule: star.induct)
  case star_empty
  then show ?case by simp
next
  case (star_step u v)
  show ?case
  proof (cases u)
    case Nil
    with star_step show ?thesis by simp
  next
    case (Cons a u')
    with star_step.prems have "a = c" and "w = u' @ v" by simp_all
    with Cons star_step.hyps show ?thesis by blast
  qed
qed

lemma star_cons_iff:
  "c # w \<in> star A \<longleftrightarrow> (\<exists>u v. w = u @ v \<and> c # u \<in> A \<and> v \<in> star A)"
proof
  assume "c # w \<in> star A"
  then show "\<exists>u v. w = u @ v \<and> c # u \<in> A \<and> v \<in> star A"
    by (rule star_cons_split) simp
next
  assume "\<exists>u v. w = u @ v \<and> c # u \<in> A \<and> v \<in> star A"
  then obtain u v where "w = u @ v" "c # u \<in> A" "v \<in> star A" by blast
  then have "(c # u) @ v \<in> star A" by (intro star.star_step)
  with \<open>w = u @ v\<close> show "c # w \<in> star A" by simp
qed

lemma deriv_lang: "w \<in> lang (deriv c r) \<longleftrightarrow> c # w \<in> lang r"
proof (induction r arbitrary: w)
  case (Seq r s)
  show ?case
  proof (cases "nullable r")
    case True
    then show ?thesis
      using Seq by (auto simp: nullable_lang Cons_eq_append_conv) 
  next
    case False
    then show ?thesis
      using Seq by (auto simp: nullable_lang Cons_eq_append_conv)
  qed
next
  case (Star r)
  then show ?case by (simp add: star_cons_iff)
qed auto

lemma regexp_test_lang: "regexp_test r w \<longleftrightarrow> w \<in> lang r"
  by (induction w arbitrary: r) (simp_all add: nullable_lang deriv_lang)

lemma star_units:
  "w \<in> star {w. \<exists>c. w = [c] \<and> P c} \<longleftrightarrow> list_all P w"
proof (induction w)
  case Nil
  show ?case by (simp add: star.star_empty)
next
  case (Cons a w)
  then show ?case by (auto simp: star_cons_iff)
qed

lemma in_ranges_hex:
  "in_ranges [(97, 102), (65, 70), (48, 57)] = hex_digit"
  by (rule ext) (auto simp: in_ranges_def hex_digit_def)

lemma plus_units:
  "(\<exists>u v. h = u @ v \<and> (\<exists>c. u = [c] \<and> P c) \<and> list_all P v) \<longleftrightarrow> h \<noteq> [] \<and> list_all P h"
proof (cases h)
  case Nil
  then show ?thesis by simp
next
  case (Cons a t)
  have "(\<exists>u v. a # t = u @ v \<and> (\<exists>c. u = [c] \<and> P c) \<and> list_all P v) \<longleftrightarrow> P a \<and> list_all P t"
    by (auto simp: Cons_eq_append_conv intro: exI [of _ "[a]"])
  with Cons show ?thesis by simp
qed

lemma lang_address_pattern: "w \<in> lang address_pattern \<longleftrightarrow> spec_address_form w"
proof -
  have "w \<in> lang address_pattern \<longleftrightarrow>
    (\<exists>h. w = of_char CHR ''0'' # of_char CHR ''x'' # h \<and> h \<noteq> [] \<and> list_all hex_digit h)"
    unfolding address_pattern_def Plus_def
    by (simp add: star_units in_ranges_hex plus_units) blast
  also have "\<dots> \<longleftrightarrow> spec_address_form w"
    unfolding spec_address_form_def js_def
    by (cases w; cases "tl w") auto
  finally show ?thesis .
qed

section \<open>Address validation\<close>

lemma isValid_iff: "isValidEthereumAddress s \<longleftrightarrow> spec_address_form s \<and> length s = 42"
  unfolding isValidEthereumAddress_def regexp_test_lang lang_address_pattern
  by (auto simp: spec_address_form_def)

lemma example_address_valid: "isValidEthereumAddress example_address"
  by (simp add: isValid_iff spec_address_form_def example_address_def js_def hex_digit_def)

section \<open>The two parts of a call\<close>

lemma submit_rejected:
  "\<not> isValidEthereumAddress (address (ui w)) \<or> falsy key \<Longrightarrow>
   fetchBalances_submit key w =
     Returned (setError (Some (if address (ui w) = [] then msg_enter_address
                     else if falsy key then msg_key_not_found else msg_invalid_address)) w)"
  by (auto simp: fetchBalances_submit_def isValidEthereumAddress_def)

lemma submit_accepted:
  "isValidEthereumAddress (address (ui w)) \<Longrightarrow> \<not> falsy key \<Longrightarrow>
   fetchBalances_submit key w =
     Awaiting (tokens_request (address (ui w)))
       ((addToRecent (address (ui w)) w)
          \<lparr>ui := (ui (addToRecent (address (ui w)) w))
                  \<lparr>loading := True, error := None, balances := [],
                    allBalances := [], showAll := False\<rparr>,
           sent := sent w @ [tokens_request (address (ui w))]\<rparr>)"
  by (auto simp: fetchBalances_submit_def isValidEthereumAddress_def Let_def addToRecent_def
      split: if_splits)

lemma fetch_rejected:
  "\<not> isValidEthereumAddress (address (ui w)) \<or> falsy key \<Longrightarrow>
   fetchBalances key net w =
     setError (Some (if address (ui w) = [] then msg_enter_address
                     else if falsy key then msg_key_not_found else msg_invalid_address)) w"
  unfolding fetchBalances_def by (simp add: submit_rejected)

lemma fetch_accepted:
  "isValidEthereumAddress (address (ui w)) \<Longrightarrow> \<not> falsy key \<Longrightarrow>
   fetchBalances key net w =
     fetchBalances_settle (net (tokens_request (address (ui w))))
       ((addToRecent (address (ui w)) w)
          \<lparr>ui := (ui (addToRecent (address (ui w)) w))
                  \<lparr>loading := True, error := None, balances := [],
                    allBalances := [], showAll := False\<rparr>,
           sent := sent w @ [tokens_request (address (ui w))]\<rparr>)"
  unfolding fetchBalances_def by (simp add: submit_accepted)

lemma fetch_resolved:
  assumes "isValidEthereumAddress (address (ui w))" and "\<not> falsy key"
    and "net (tokens_request (address (ui w))) = Resolved result"
  shows "ui (fetchBalances key net w) =
     (ui w)\<lparr>recentAddresses := updated_recent (address (ui w)) (recentAddresses (ui w)),
            loading := False, error := None, showAll := False,
            allBalances := sortedBalances result,
            balances := filteredBalances (sortedBalances result),
            totalValue := total_usd (sortedBalances result)\<rparr>"
  by (simp add: fetch_accepted [OF assms(1,2)] assms(3) fetchBalances_settle_def addToRecent_def
      Let_def)

lemma fetch_failed:
  assumes "isValidEthereumAddress (address (ui w))" and "\<not> falsy key"
    and "net (tokens_request (address (ui w))) = Rejected e"
  shows "ui (fetchBalances key net w) =
     (ui w)\<lparr>recentAddresses := updated_recent (address (ui w)) (recentAddresses (ui w)),
            loading := False, error := Some (error_text e), showAll := False,
            allBalances := [], balances := []\<rparr>"
  by (simp add: fetch_accepted [OF assms(1,2)] assms(3) fetchBalances_settle_def addToRecent_def
      Let_def)

section \<open>Sorting and summing\<close>

lemma mset_insert_by: "mset (insert_by cmp x ys) = add_mset x (mset ys)"
  by (induction ys) simp_all

lemma mset_array_sort: "mset (array_sort cmp xs) = mset xs"
  unfolding array_sort_def by (induction xs) (simp_all add: mset_insert_by)

lemma set_array_sort: "set (array_sort cmp xs) = set xs"
  using mset_array_sort [of cmp xs] by (metis set_mset_mset)

lemma sorted_insert_by:
  "sorted_wrt (\<lambda>a b. k a \<ge> k b) ys \<Longrightarrow>
   sorted_wrt (\<lambda>a b. k a \<ge> k b) (insert_by (\<lambda>a b. k b - k a) x ys)"
proof (induction ys)
  case Nil
  show ?case by simp
next
  case (Cons y ys)
  show ?case
  proof (cases "k y - k x \<le> (0 :: number)")
    case True
    with Cons.prems show ?thesis by auto
  next
    case False
    have "set (insert_by (\<lambda>a b. k b - k a) x ys) = insert x (set ys)"
      using mset_insert_by [of "\<lambda>a b. k b - k a" x ys] by (metis set_mset_add_mset_insert set_mset_mset)
    with False Cons show ?thesis by auto
  qed
qed

lemma sorted_array_sort:
  "sorted_wrt (\<lambda>a b. k a \<ge> k b) (array_sort (\<lambda>a b. k b - k a) xs)"
  unfolding array_sort_def by (induction xs) (simp_all add: sorted_insert_by)

text \<open>Tokens of equal value keep the order they have in the answer.\<close>

lemma insert_by_stable:
  "filter (\<lambda>t. k t = v) (insert_by (\<lambda>a b. k b - k a) x ys) = filter (\<lambda>t. k t = v) (x # ys)"
proof (induction ys)
  case Nil
  show ?case by simp
next
  case (Cons y ys)
  show ?case
  proof (cases "k y - k x \<le> (0 :: number)")
    case True
    then show ?thesis by simp
  next
    case False
    then have "k x \<noteq> k y" by auto
    with False Cons show ?thesis by auto
  qed
qed

lemma array_sort_stable:
  "filter (\<lambda>t. k t = v) (array_sort (\<lambda>a b. k b - k a) xs) = filter (\<lambda>t. k t = v) xs"
  unfolding array_sort_def by (induction xs) (simp_all add: insert_by_stable)

lemma total_usd_fold:
  "total_usd bs = foldl double_plus (Finite 0) (map (\<lambda>t. Finite (usd t)) bs)"
  by (simp add: total_usd_def foldl_map)

lemma validTokens_twice: "validTokens (validTokens result) = validTokens result"
  by (simp add: validTokens_def)

lemma sortedBalances_validTokens: "sortedBalances (validTokens result) = sortedBalances result"
  by (simp add: sortedBalances_def validTokens_twice)

text \<open>Evaluation of the addition at given doubles.\<close>

lemma bit_length_zero: "bit_length 0 = 0"
  by (subst bit_length.simps) simp

lemma bit_length_step: "0 < n \<Longrightarrow> bit_length n = Suc (bit_length (n div 2))"
  by (subst bit_length.simps) simp

lemma floor_rat_numeral: "\<lfloor>numeral a / numeral b :: rat\<rfloor> = numeral a div numeral b"
  using floor_divide_of_int_eq [of "numeral a" "numeral b", where ?'a = rat] by simp

lemma ceiling_rat_numeral: "\<lceil>numeral a / numeral b :: rat\<rceil> = - (- numeral a div numeral b)"
  using ceiling_divide_eq_div [of "numeral a" "numeral b", where ?'a = rat] by simp

lemmas double_simps = round_double_def floor_log2_def round_half_even_def Let_def
  bit_length_zero bit_length_step floor_rat_numeral ceiling_rat_numeral

text \<open>The rounding is to a nearest double, and whole numbers below \<open>2\<^sup>5\<^sup>3\<close> add exactly.\<close>

lemma bit_length_bounds:
  "0 < n \<Longrightarrow> 2 ^ (bit_length n - 1) \<le> n \<and> n < 2 ^ bit_length n"
proof (induction n rule: bit_length.induct)
  case (1 n)
  show ?case
  proof (cases "n div 2 = 0")
    case True
    with 1(2) have "n = 1" by (simp add: div_eq_0_iff) 
    then show ?thesis by (simp add: bit_length_step bit_length_zero)
  next
    case False
    then have pos: "0 < n div 2" by simp
    from 1(2) have nz: "n \<noteq> 0" by simp
    from 1(1) [OF nz pos]
    have lo: "2 ^ (bit_length (n div 2) - 1) \<le> n div 2"
      and hi: "n div 2 < 2 ^ bit_length (n div 2)" by simp_all
    have len: "bit_length n = Suc (bit_length (n div 2))"
      using 1(2) by (simp add: bit_length_step)
    obtain j where j: "bit_length (n div 2) = Suc j"
      using pos by (cases "bit_length (n div 2)") (simp_all add: bit_length_step)
    from lo j have "2 * 2 ^ j \<le> n" by simp
    moreover from hi j have "n < 2 * (2 * 2 ^ j)" by simp
    ultimately show ?thesis by (simp add: len j)
  qed
qed

lemma floor_log2_ge1:
  assumes "1 \<le> x"
  shows "2 powi floor_log2 x \<le> x \<and> x < 2 powi (floor_log2 x + 1)"
proof -
  define m where "m = nat \<lfloor>x\<rfloor>"
  define k where "k = bit_length m"
  have fl: "1 \<le> \<lfloor>x\<rfloor>" using assms by simp
  then have m: "0 < m" and mx: "of_nat m \<le> x" and xm: "x < of_nat m + 1"
    unfolding m_def by (simp_all add: of_nat_nat) linarith+
  from bit_length_bounds [OF m] have lo: "2 ^ (k - 1) \<le> m" and hi: "m < 2 ^ k"
    by (simp_all add: k_def)
  have k: "0 < k" using m by (simp add: k_def bit_length_step)
  have e: "floor_log2 x = int k - 1"
    using assms by (simp add: floor_log2_def m_def k_def)
  have p1: "(2::rat) powi (int k - 1) = 2 ^ (k - 1)"
    using k by (simp add: power_int_def nat_diff_distrib')
  have "(2::rat) ^ (k - 1) \<le> of_nat m"
    using lo by (metis of_nat_le_iff of_nat_numeral of_nat_power)
  with mx have "(2::rat) ^ (k - 1) \<le> x" by linarith
  then have a: "(2::rat) powi (int k - 1) \<le> x" by (simp only: p1)
  from hi have "m + 1 \<le> 2 ^ k" by simp
  then have "of_nat (m + 1) \<le> (2::rat) ^ k"
    by (metis of_nat_le_iff of_nat_numeral of_nat_power)
  with xm have b: "x < (2::rat) ^ k" by simp
  from a b show ?thesis by (simp only: e) simp
qed

lemma floor_log2_lt1:
  assumes "0 < x" and "x < 1"
  shows "2 powi floor_log2 x \<le> x \<and> x < 2 powi (floor_log2 x + 1)"
proof -
  define y where "y = 1 / x"
  define m where "m = nat (\<lceil>y\<rceil> - 1)"
  define k where "k = bit_length m"
  have y: "1 < y" using assms by (simp add: y_def)
  then have c: "2 \<le> \<lceil>y\<rceil>" by (simp add: le_ceiling_iff)
  then have m: "0 < m" unfolding m_def by simp
  have my: "of_nat m < y"
    using c unfolding m_def by (simp add: of_nat_nat) linarith
  have ym: "y \<le> of_nat m + 1"
    using c unfolding m_def by (simp add: of_nat_nat)
  from bit_length_bounds [OF m] have lo: "2 ^ (k - 1) \<le> m" and hi: "m < 2 ^ k"
    by (simp_all add: k_def)
  have k: "0 < k" using m by (simp add: k_def bit_length_step)
  have e: "floor_log2 x = - int k"
    using assms by (simp add: floor_log2_def m_def k_def y_def)
  from hi have "m + 1 \<le> 2 ^ k" by simp
  then have "of_nat (m + 1) \<le> (2::rat) ^ k"
    by (metis of_nat_le_iff of_nat_numeral of_nat_power)
  with ym have "y \<le> 2 ^ k" by simp
  then have "1 / 2 ^ k \<le> x"
    using assms by (simp add: y_def field_simps)
  then have a: "2 powi (- int k) \<le> x"
    by (simp add: power_int_minus_divide)
  have "(2::rat) ^ (k - 1) \<le> of_nat m"
    using lo by (metis of_nat_le_iff of_nat_numeral of_nat_power)
  with my have "(2::rat) ^ (k - 1) < y" by linarith
  then have "x < 1 / 2 ^ (k - 1)"
    using assms by (simp add: y_def field_simps)
  moreover have "(2::rat) powi (- int k + 1) = 1 / 2 ^ (k - 1)"
    using k by (cases k) (simp_all add: power_int_def nat_add_distrib field_simps)
  ultimately have b: "x < 2 powi (- int k + 1)" by simp
  from a b show ?thesis by (simp add: e)
qed

lemma floor_log2_bounds:
  "0 < x \<Longrightarrow> 2 powi floor_log2 x \<le> x \<and> x < 2 powi (floor_log2 x + 1)"
  using floor_log2_ge1 [of x] floor_log2_lt1 [of x] by (cases "1 \<le> x") auto

lemma round_half_even_close: "\<bar>of_int (round_half_even y) - y\<bar> \<le> 1 / 2"
proof -
  define r where "r = y - of_int \<lfloor>y\<rfloor>"
  have r: "0 \<le> r" "r < 1"
    unfolding r_def by linarith+
  have y: "y = of_int \<lfloor>y\<rfloor> + r"
    by (simp add: r_def)
  consider "r < 1 / 2" | "1 / 2 < r" | "r = 1 / 2" by linarith
  then show ?thesis
  proof cases
    case 1
    then have "round_half_even y = \<lfloor>y\<rfloor>"
      by (simp add: round_half_even_def r_def)
    with r 1 show ?thesis by (simp add: r_def)
  next
    case 2
    then have "round_half_even y = \<lfloor>y\<rfloor> + 1"
      by (simp add: round_half_even_def r_def)
    with r 2 show ?thesis by (simp add: r_def)
  next
    case 3
    then have "round_half_even y = \<lfloor>y\<rfloor> \<or> round_half_even y = \<lfloor>y\<rfloor> + 1"
      by (simp add: round_half_even_def r_def Let_def)
    with 3 show ?thesis by (auto simp: r_def) 
  qed
qed

lemma round_half_even_int: "round_half_even (of_int z) = z"
  by (simp add: round_half_even_def)

lemma round_double_close:
  assumes "round_double x = Finite r"
  shows "\<bar>r - x\<bar> \<le> 2 powi (max (floor_log2 \<bar>x\<bar> - 52) (- 1074)) / 2"
proof (cases "x = 0")
  case True
  with assms show ?thesis by (simp add: round_double_def)
next
  case False
  define q where "q = max (floor_log2 \<bar>x\<bar> - 52) (- 1074)"
  define d where "d = (2::rat) powi q"
  define m where "m = of_int (round_half_even (\<bar>x\<bar> / d)) * d"
  have d: "0 < d" by (simp add: d_def)
  from assms False have r: "r = (if x < 0 then - m else m)"
    by (auto simp: round_double_def Let_def q_def d_def m_def split: if_splits)
  have "m - \<bar>x\<bar> = (of_int (round_half_even (\<bar>x\<bar> / d)) - \<bar>x\<bar> / d) * d"
    using d by (simp add: m_def left_diff_distrib)
  then have "\<bar>m - \<bar>x\<bar>\<bar> = \<bar>of_int (round_half_even (\<bar>x\<bar> / d)) - \<bar>x\<bar> / d\<bar> * d"
    using d by (simp only: abs_mult) simp
  also have "\<dots> \<le> (1 / 2) * d"
    using round_half_even_close [of "\<bar>x\<bar> / d"] d by (intro mult_right_mono) simp_all
  finally have "\<bar>m - \<bar>x\<bar>\<bar> \<le> d / 2" by simp
  then have "\<bar>r - x\<bar> \<le> d / 2"
    unfolding r by (auto simp: abs_if split: if_splits)
  then show ?thesis by (simp add: d_def q_def)
qed

lemma round_double_integer:
  assumes "\<bar>z\<bar> < 2 ^ 53"
  shows "round_double (of_int z) = Finite (of_int z)"
proof (cases "z = 0")
  case True
  then show ?thesis by (simp add: round_double_def)
next
  case False
  define a where "a = \<bar>of_int z :: rat\<bar>"
  have a1: "1 \<le> a" using False by (simp add: a_def)
  have a2: "a < 2 ^ 53"
    using assms unfolding a_def by (metis of_int_abs of_int_less_iff of_int_numeral of_int_power)
  from floor_log2_bounds [of a] a1 have lo: "2 powi floor_log2 a \<le> a" by simp
  have "0 < nat \<lfloor>a\<rfloor>" using a1 by simp
  then have "0 < bit_length (nat \<lfloor>a\<rfloor>)" by (simp add: bit_length_step)
  then have e0: "0 \<le> floor_log2 a"
    using a1 by (simp add: floor_log2_def)
  have "(2::rat) powi floor_log2 a < 2 powi 53" using lo a2 by simp
  then have e1: "floor_log2 a < 53"
    using power_int_increasing [of 53 "floor_log2 a" "2::rat"] by (cases "floor_log2 a < 53") auto
  define n where "n = nat (52 - floor_log2 a)"
  have q: "max (floor_log2 a - 52) (- 1074) = - int n"
    using e0 e1 by (simp add: n_def)
  have p: "(2::rat) powi (- int n) = 1 / 2 ^ n"
    by (simp add: power_int_minus_divide)
  have s: "a / (1 / 2 ^ n) = of_int (\<bar>z\<bar> * 2 ^ n)"
    by (simp add: a_def)
  have m: "of_int (round_half_even (a / (1 / 2 ^ n))) * (1 / 2 ^ n) = a"
    unfolding s round_half_even_int by (simp add: a_def)
  have big: "\<not> (2::rat) ^ 1024 \<le> a"
    using a2 by (simp add: not_le)
  show ?thesis
    using False big unfolding round_double_def Let_def a_def [symmetric] q p m
    by (auto simp: a_def)
qed

lemma integer_total:
  assumes "0 \<le> a" and "\<forall>z \<in> set zs. 0 \<le> z" and "a + sum_list zs < 2 ^ 53"
  shows "foldl double_plus (Finite (of_int a)) (map (\<lambda>z. Finite (of_int z)) zs) =
    Finite (of_int (a + sum_list zs))"
  using assms
proof (induction zs arbitrary: a)
  case Nil
  then show ?case by simp
next
  case (Cons z zs)
  have nn: "0 \<le> sum_list zs"
    using Cons.prems(2) by (intro sum_list_nonneg) simp
  have z: "0 \<le> z" using Cons.prems(2) by simp
  have "\<bar>a + z\<bar> < 2 ^ 53"
    using Cons.prems(1,3) z nn by simp
  then have "round_double (of_int (a + z)) = Finite (of_int (a + z))"
    by (rule round_double_integer)
  then have step: "double_plus (Finite (of_int a)) (Finite (of_int z)) = Finite (of_int (a + z))"
    by simp
  have "foldl double_plus (Finite (of_int (a + z))) (map (\<lambda>z. Finite (of_int z)) zs) =
      Finite (of_int (a + z + sum_list zs))"
    using Cons.prems z by (intro Cons.IH) (simp_all add: add.assoc)
  then show ?case
    unfolding list.map foldl_Cons step sum_list.Cons by (simp only: add.assoc)
qed

text \<open>
  A sum that lies halfway between two doubles goes to the one with the even
  significand, and a sum beyond the largest double goes to infinity.
\<close>

lemma double_plus_tie:
  "double_plus (Finite (2 ^ 53)) (Finite 1) = Finite (2 ^ 53) \<and>
   double_plus (Finite (2 ^ 53 + 2)) (Finite 1) = Finite (2 ^ 53 + 4)"
  by (simp add: double_simps)

lemma double_plus_overflow: "double_plus (Finite (2 ^ 1023)) (Finite (2 ^ 1023)) = PosInfinity"
  by (simp add: double_simps)


lemma sorted_sortedBalances:
  "sorted_wrt (\<lambda>a b. usd a \<ge> usd b) (sortedBalances result)"
  unfolding sortedBalances_def by (rule sorted_array_sort)

lemma mset_sortedBalances: "mset (sortedBalances result) = mset (validTokens result)"
  unfolding sortedBalances_def by (rule mset_array_sort)

lemma set_sortedBalances:
  "set (sortedBalances result) = {t \<in> set result. \<not> possible_spam t \<and> usd t > 0}"
  unfolding sortedBalances_def set_array_sort validTokens_def by auto

lemma usd_positive: "usd t > 0 \<longleftrightarrow> (\<exists>v. usd_value t = Some v \<and> v > 0)"
  by (cases "usd_value t") (simp_all add: usd_def ToNumber_def)

section \<open>The recent addresses\<close>

lemma updated_recent_length: "length (updated_recent a xs) \<le> 5"
  by (simp add: updated_recent_def)

lemma updated_recent_twice: "updated_recent a (updated_recent a xs) = updated_recent a xs"
proof -
  have "filter (\<lambda>x. x \<noteq> a) (take 4 (filter (\<lambda>x. x \<noteq> a) xs)) = take 4 (filter (\<lambda>x. x \<noteq> a) xs)"
    by (rule filter_True) (auto dest: in_set_takeD)
  then show ?thesis
    by (simp add: updated_recent_def take_Cons')
qed

lemma updated_recent_once: "count_list (updated_recent a xs) a = 1 \<and> hd (updated_recent a xs) = a"
proof -
  have "a \<notin> set (take 4 (filter (\<lambda>x. x \<noteq> a) xs))"
    by (auto dest: in_set_takeD)
  then show ?thesis
    by (simp add: updated_recent_def take_Cons' count_list_0_iff)
qed

lemma updated_recent_evicts:
  assumes "length xs = 5" and "a \<notin> set xs"
  shows "updated_recent a xs = a # butlast xs"
proof -
  have "filter (\<lambda>x. x \<noteq> a) xs = xs"
    using assms(2) by (intro filter_True) auto
  with assms(1) show ?thesis
    by (simp add: updated_recent_def take_Cons' butlast_conv_take)
qed

section \<open>The example call\<close>

lemma example_world_address: "address (ui example_world) = example_address"
  by (simp add: example_world_def step_def)

lemma example_key_set: "\<not> falsy example_key"
  by (simp add: example_key_def falsy_def js_def)

lemma example_sorted:
  "sortedBalances example_result =
     [example_token ''BBB'' False (Some 15), example_token ''CCC'' False (Some 10),
      example_token ''AAA'' False (Some 5)]"
  by (simp add: sortedBalances_def validTokens_def array_sort_def example_result_def
      example_token_def usd_def ToNumber_def)

lemma usd_example_token: "usd (example_token s spam v) = ToNumber v"
  by (simp add: example_token_def usd_def)

lemma example_total:
  "total_usd [example_token ''BBB'' False (Some 15), example_token ''CCC'' False (Some 10),
     example_token ''AAA'' False (Some 5)] = Finite 30"
  by (simp add: total_usd_def usd_example_token ToNumber_def double_simps)

lemma example_filtered_total:
  "total_usd [example_token ''BBB'' False (Some 15), example_token ''CCC'' False (Some 10)] =
     Finite 25"
  by (simp add: total_usd_def usd_example_token ToNumber_def double_simps)

lemma fractions_sorted:
  "sortedBalances example_fractions =
     [example_token ''FIF'' False (Some (3602879701896397 / 18014398509481984)),
      example_token ''TEN'' False (Some (3602879701896397 / 36028797018963968))]"
  by (simp add: sortedBalances_def validTokens_def array_sort_def example_fractions_def
      usd_example_token ToNumber_def) (simp add: example_token_def)

lemma fractions_total:
  "total_usd (sortedBalances example_fractions) =
     Finite (1351079888211149 / 4503599627370496)"
  by (simp add: fractions_sorted total_usd_def usd_example_token ToNumber_def double_simps)

lemma example_fetch:
  "ui (fetchBalances example_key example_net example_world) =
     initial_state
       \<lparr>address := example_address, recentAddresses := [example_address],
        allBalances := [example_token ''BBB'' False (Some 15),
          example_token ''CCC'' False (Some 10), example_token ''AAA'' False (Some 5)],
        balances := [example_token ''BBB'' False (Some 15),
          example_token ''CCC'' False (Some 10)],
        totalValue := Finite 30\<rparr>"
proof -
  have v: "isValidEthereumAddress (address (ui example_world))"
    by (simp add: example_world_address example_address_valid)
  have "filteredBalances (sortedBalances example_result) =
      [example_token ''BBB'' False (Some 15), example_token ''CCC'' False (Some 10)]"
    by (simp add: example_sorted filteredBalances_def) (simp add: example_token_def usd_def ToNumber_def)
  moreover have "total_usd (sortedBalances example_result) = Finite 30"
    by (simp add: example_sorted example_total)
  ultimately show ?thesis
    using fetch_resolved [of example_world example_key example_net example_result,
        OF v example_key_set]
    by (simp add: example_net_def example_sorted example_world_address)
      (simp add: example_world_def step_def initial_world_def initial_state_def
        updated_recent_def)
qed

section \<open>Steps of the page\<close>

lemma run_snoc: "run key w (evs @ [ev]) = step key ev (run key w evs)"
  by (simp add: run_def)

lemma submit_cases:
  "(\<exists>m. fetchBalances_submit key w = Returned (setError (Some m) w)) \<or>
   (\<exists>rq w1. fetchBalances_submit key w = Awaiting rq w1 \<and>
      balances (ui w1) = [] \<and> allBalances (ui w1) = [])"
  by (auto simp: fetchBalances_submit_def Let_def addToRecent_def)

lemma lists_agree_submit:
  assumes "lists_agree (ui w)"
  shows "case fetchBalances_submit key w of
           Returned w1 \<Rightarrow> lists_agree (ui w1)
         | Awaiting rq w1 \<Rightarrow> lists_agree (ui w1)"
  using submit_cases [of key w] assms
  by (auto simp: lists_agree_def setError_def)

lemma lists_agree_settle:
  assumes "lists_agree (ui w)"
  shows "lists_agree (ui (fetchBalances_settle r w))"
  using assms
  by (cases r)
    (simp_all add: fetchBalances_settle_def lists_agree_def filteredBalances_def
      sorted_sortedBalances)

lemma lists_agree_step:
  assumes "lists_agree (ui w)"
  shows "lists_agree (ui (step key ev w))"
proof (cases ev)
  case ClickCheck
  then show ?thesis
    using assms lists_agree_submit [OF assms, of key]
    by (auto simp: step_def lists_agree_def split: suspended.splits)
next
  case (Settle r)
  then show ?thesis
    using assms lists_agree_settle [OF assms, of r]
    by (auto simp: step_def lists_agree_def)
qed (use assms in \<open>auto simp: step_def lists_agree_def split: option.splits\<close>)

lemma lists_agree_run:
  "lists_agree (ui w) \<Longrightarrow> lists_agree (ui (run key w evs))"
  by (induction evs rule: rev_induct) (simp_all add: run_def lists_agree_step)

lemma click_then_settle:
  assumes "\<not> loading (ui w)" and "awaiting w = None"
  shows "ui (run key w [ClickCheck, Settle r]) = ui (fetchBalances key (\<lambda>rq. r) w)"
proof (cases "fetchBalances_submit key w")
  case (Returned w1)
  with submit_cases [of key w] assms show ?thesis
    by (auto simp: run_def step_def fetchBalances_def setError_def)
next
  case (Awaiting rq w1)
  with assms show ?thesis
    by (cases r) (simp_all add: run_def step_def fetchBalances_def fetchBalances_settle_def)
qed

lemma example_run:
  "ui (run example_key (initial_world None) example_events) =
     ui (fetchBalances example_key example_net example_world)"
proof -
  have "run example_key (initial_world None) example_events =
      run example_key example_world [ClickCheck, Settle (Resolved example_result)]"
    by (simp add: example_events_def run_def example_world_def)
  moreover have "\<not> loading (ui example_world)" and "awaiting example_world = None"
    by (simp_all add: example_world_def step_def initial_world_def initial_state_def)
  ultimately show ?thesis
    using click_then_settle [of example_world example_key "Resolved example_result"]
    by (simp add: example_net_def [abs_def])
qed

lemma stale_world_ui:
  "ui stale_world = (ui (fetchBalances example_key example_net example_world))
      \<lparr>address := js ''0x123''\<rparr>"
  unfolding stale_world_def run_snoc by (simp add: step_def example_run)

section \<open>The message of a failure\<close>

lemma rate_limit_distinct: "msg_rate_limit \<noteq> msg_generic"
  by (simp add: msg_rate_limit_def msg_generic_def js_def)

lemma errorMessage_cases:
  "errorMessage e =
     (if response_status e = Some 429 then msg_rate_limit
      else if \<not> falsy (response_data_message e) then the (response_data_message e)
      else if \<not> falsy (message e) then the (message e)
      else msg_generic)"
  by (auto simp: errorMessage_def or_else_def falsy_def split: option.splits)

section \<open>The market table\<close>

lemma forEach_upsert_map_add:
  "forEach_upsert u page m =
     m ++ map_of (rev (map (\<lambda>t. (token_id t, top_token u t)) page))"
proof (induction page arbitrary: m)
  case Nil
  show ?case by simp
next
  case (Cons t page)
  have "m(token_id t \<mapsto> top_token u t) = m ++ [token_id t \<mapsto> top_token u t]"
    by simp
  then show ?case
    by (simp add: Cons.IH map_add_assoc del: map_add_upd)
qed

lemma map_add_twice: "(m ++ f) ++ f = m ++ (f :: 'a \<rightharpoonup> 'b)"
  by (rule ext) (simp add: map_add_def split: option.splits)

lemma upsert_lookup:
  "upsert_page u page m k =
     (case find (\<lambda>t. token_id t = k) (rev page) of
        Some t \<Rightarrow> Some (top_token u t)
      | None \<Rightarrow> m k)"
proof -
  have "map_of (map (\<lambda>t. (token_id t, top_token u t)) ts) k =
      map_option (top_token u) (find (\<lambda>t. token_id t = k) ts)" for ts
    by (induction ts) auto
  then show ?thesis
    by (simp add: upsert_page_def forEach_upsert_map_add map_add_def rev_map
        split: option.splits)
qed

section \<open>Formatting an amount\<close>

subsection \<open>Digits\<close>

lemma digits_small: "n < 10 \<Longrightarrow> digits n = [digit n]"
  by (subst digits.simps) simp

lemma digits_step: "10 \<le> n \<Longrightarrow> digits n = digits (n div 10) @ [digit (n mod 10)]"
  by (subst digits.simps) simp

lemma digit_is_digit: "d < 10 \<Longrightarrow> is_digit (digit d)"
proof -
  assume "d < 10"
  then have "d \<in> {0,1,2,3,4,5,6,7,8,9}" by auto
  then show ?thesis by (auto simp: digit_def is_digit_def)
qed

lemma digit_zero_iff: "d < 10 \<Longrightarrow> digit d = CHR ''0'' \<longleftrightarrow> d = 0"
proof -
  assume "d < 10"
  then have "d \<in> {0,1,2,3,4,5,6,7,8,9}" by auto
  then show ?thesis by (auto simp: digit_def)
qed

lemma digits_nonempty: "digits n \<noteq> []"
  by (subst digits.simps) simp

lemma digits_all: "list_all is_digit (digits n)"
proof (induction n rule: digits.induct)
  case (1 n)
  show ?case
  proof (cases "n < 10")
    case True
    then show ?thesis by (simp add: digits_small digit_is_digit)
  next
    case False
    with 1 show ?thesis by (simp add: digits_step digit_is_digit)
  qed
qed

lemma digits_hd: "0 < n \<Longrightarrow> hd (digits n) \<noteq> CHR ''0''"
proof (induction n rule: digits.induct)
  case (1 n)
  show ?case
  proof (cases "n < 10")
    case True
    with 1(2) show ?thesis by (simp add: digits_small digit_zero_iff)
  next
    case False
    then have "0 < n div 10" by simp
    with 1(1) False have "hd (digits (n div 10)) \<noteq> CHR ''0''" by simp
    with False show ?thesis by (simp add: digits_step digits_nonempty)
  qed
qed

lemma digits_bounds:
  "0 < n \<Longrightarrow> 10 ^ (length (digits n) - 1) \<le> n \<and> n < 10 ^ length (digits n)"
proof (induction n rule: digits.induct)
  case (1 n)
  show ?case
  proof (cases "n < 10")
    case True
    with 1(2) show ?thesis by (simp add: digits_small)
  next
    case False
    then have pos: "0 < n div 10" by simp
    from 1(1) [OF False pos]
    have lo: "10 ^ (length (digits (n div 10)) - 1) \<le> n div 10"
      and hi: "n div 10 < 10 ^ length (digits (n div 10))" by simp_all
    have len: "length (digits n) = Suc (length (digits (n div 10)))"
      using False by (simp add: digits_step)
    obtain j where j: "length (digits (n div 10)) = Suc j"
      using digits_nonempty [of "n div 10"] by (cases "digits (n div 10)") auto
    from lo j have "10 * 10 ^ j \<le> n" by simp
    moreover from hi j have "n < 10 * (10 * 10 ^ j)" by simp
    ultimately show ?thesis by (simp add: len j)
  qed
qed

lemma length_digits:
  assumes "10 ^ k \<le> n" and "n < 10 ^ Suc k"
  shows "length (digits n) = Suc k"
proof -
  from assms(1) have pos: "0 < n"
    by (metis less_le_trans zero_less_numeral zero_less_power)
  note b = digits_bounds [OF pos]
  have "(10::nat) ^ (length (digits n) - 1) < 10 ^ Suc k"
    using b assms(2) by (meson le_less_trans)
  then have "length (digits n) - 1 < Suc k"
    by (simp only: power_strict_increasing_iff [of 10, OF _] ) 
  moreover have "(10::nat) ^ k < 10 ^ length (digits n)"
    using b assms(1) by (meson le_less_trans)
  then have "k < length (digits n)"
    by simp
  ultimately show ?thesis by simp
qed

subsection \<open>The exponent and the digits of a positive number\<close>

lemma floor_log10_ge1:
  assumes "1 \<le> x"
  shows "10 powi floor_log10 x \<le> x \<and> x < 10 powi (floor_log10 x + 1)"
proof -
  define m where "m = nat \<lfloor>x\<rfloor>"
  define k where "k = length (digits m)"
  have fl: "1 \<le> \<lfloor>x\<rfloor>" using assms by simp
  then have m: "0 < m" and mx: "of_nat m \<le> x" and xm: "x < of_nat m + 1"
    unfolding m_def by (simp_all add: of_nat_nat) linarith+
  from digits_bounds [OF m] have lo: "10 ^ (k - 1) \<le> m" and hi: "m < 10 ^ k"
    by (simp_all add: k_def)
  have k: "0 < k" using digits_nonempty [of m] by (simp add: k_def)
  have e: "floor_log10 x = int k - 1"
    using assms by (simp add: floor_log10_def m_def k_def)
  have p1: "(10::rat) powi (int k - 1) = 10 ^ (k - 1)"
    using k by (simp add: power_int_def nat_diff_distrib')
  have "(10::rat) ^ (k - 1) \<le> of_nat m"
    using lo by (metis of_nat_le_iff of_nat_numeral of_nat_power)
  with mx have "(10::rat) ^ (k - 1) \<le> x" by linarith
  then have a: "(10::rat) powi (int k - 1) \<le> x" by (simp only: p1)
  from hi have "m + 1 \<le> 10 ^ k" by simp
  then have "of_nat (m + 1) \<le> (10::rat) ^ k"
    by (metis of_nat_le_iff of_nat_numeral of_nat_power)
  with xm have b: "x < (10::rat) ^ k" by simp
  from a b show ?thesis by (simp only: e) simp
qed

lemma floor_log10_lt1:
  assumes "0 < x" and "x < 1"
  shows "10 powi floor_log10 x \<le> x \<and> x < 10 powi (floor_log10 x + 1)"
proof -
  define y where "y = 1 / x"
  define m where "m = nat (\<lceil>y\<rceil> - 1)"
  define k where "k = length (digits m)"
  have y: "1 < y" using assms by (simp add: y_def)
  then have c: "2 \<le> \<lceil>y\<rceil>" by (simp add: le_ceiling_iff) 
  then have m: "0 < m" unfolding m_def by simp
  have my: "of_nat m < y"
    using c unfolding m_def by (simp add: of_nat_nat) linarith
  have ym: "y \<le> of_nat m + 1"
    using c unfolding m_def by (simp add: of_nat_nat)
  from digits_bounds [OF m] have lo: "10 ^ (k - 1) \<le> m" and hi: "m < 10 ^ k"
    by (simp_all add: k_def)
  have k: "0 < k" using digits_nonempty [of m] by (simp add: k_def)
  have e: "floor_log10 x = - int k"
    using assms by (simp add: floor_log10_def m_def k_def y_def)
  from hi have "m + 1 \<le> 10 ^ k" by simp
  then have "of_nat (m + 1) \<le> (10::rat) ^ k"
    by (metis of_nat_le_iff of_nat_numeral of_nat_power)
  with ym have "y \<le> 10 ^ k" by simp
  then have "1 / 10 ^ k \<le> x"
    using assms by (simp add: y_def field_simps)
  then have a: "10 powi (- int k) \<le> x"
    by (simp add: power_int_minus_divide)
  have "(10::rat) ^ (k - 1) \<le> of_nat m"
    using lo by (metis of_nat_le_iff of_nat_numeral of_nat_power)
  with my have "(10::rat) ^ (k - 1) < y" by linarith
  then have "x < 1 / 10 ^ (k - 1)"
    using assms by (simp add: y_def field_simps)
  moreover have "(10::rat) powi (- int k + 1) = 1 / 10 ^ (k - 1)"
    using k by (cases k) (simp_all add: power_int_def nat_add_distrib field_simps)
  ultimately have b: "x < 10 powi (- int k + 1)" by simp
  from a b show ?thesis by (simp add: e)
qed

lemma floor_log10_bounds:
  "0 < x \<Longrightarrow> 10 powi floor_log10 x \<le> x \<and> x < 10 powi (floor_log10 x + 1)"
  using floor_log10_ge1 [of x] floor_log10_lt1 [of x] by (cases "1 \<le> x") auto

lemma scaled_bounds:
  assumes "0 < x"
  shows "10 ^ f \<le> x / 10 powi (floor_log10 x - int f) \<and>
         x / 10 powi (floor_log10 x - int f) < 10 ^ Suc f"
proof -
  define e where "e = floor_log10 x"
  define d where "d = (10::rat) powi (e - int f)"
  have d: "0 < d" by (simp add: d_def)
  from floor_log10_bounds [OF assms] have lo: "10 powi e \<le> x" and hi: "x < 10 powi (e + 1)"
    by (simp_all add: e_def)
  have 1: "(10::rat) powi e = 10 ^ f * d"
    by (simp add: d_def power_int_diff)
  have 2: "(10::rat) powi (e + 1) = 10 ^ Suc f * d"
    by (simp add: d_def power_int_diff power_int_add)
  from lo d have "10 ^ f \<le> x / d"
    by (simp add: 1 pos_le_divide_eq)
  moreover from hi d have "x / d < 10 ^ Suc f"
    by (simp only: 2 pos_divide_less_eq)
  ultimately show ?thesis by (simp add: d_def e_def)
qed

lemma round_half_up_range:
  assumes "of_nat a \<le> s" and "s < of_nat b"
  shows "a \<le> round_half_up s \<and> round_half_up s \<le> b"
proof -
  have "int a \<le> \<lfloor>s + 1 / 2\<rfloor>"
    using assms(1) by (simp add: le_floor_iff)
  moreover have "s + 1 / 2 < of_int (int b + 1)"
    using assms(2) by simp
  then have "\<lfloor>s + 1 / 2\<rfloor> < int b + 1"
    by (simp only: floor_less_iff)
  ultimately show ?thesis
    unfolding round_half_up_def by linarith
qed

lemma round_half_up_close:
  assumes "0 \<le> s"
  shows "\<bar>of_nat (round_half_up s) - s\<bar> \<le> 1 / 2"
proof -
  have "0 \<le> \<lfloor>s + 1 / 2\<rfloor>" using assms by simp
  then have "of_nat (round_half_up s) = (of_int \<lfloor>s + 1 / 2\<rfloor> :: rat)"
    by (simp add: round_half_up_def)
  moreover have "of_int \<lfloor>s + 1 / 2\<rfloor> \<le> s + 1 / 2" by (rule of_int_floor_le)
  moreover have "s + 1 / 2 < of_int \<lfloor>s + 1 / 2\<rfloor> + 1" by linarith
  ultimately show ?thesis by linarith
qed

lemma scientific_bounds:
  assumes "0 < x" and "scientific f x = (e, n)"
  shows "10 ^ f \<le> n \<and> n < 10 ^ Suc f \<and>
         (e = floor_log10 x \<or> e = floor_log10 x + 1)"
proof -
  define s where "s = x / 10 powi (floor_log10 x - int f)"
  from scaled_bounds [OF assms(1), of f]
  have "of_nat (10 ^ f) \<le> s" and "s < of_nat (10 ^ Suc f)"
    by (simp_all add: s_def)
  from round_half_up_range [OF this]
  have r: "10 ^ f \<le> round_half_up s" "round_half_up s \<le> 10 ^ Suc f"
    by simp_all
  show ?thesis
  proof (cases "round_half_up s = 10 ^ Suc f")
    case True
    with assms(2) have "e = floor_log10 x + 1" and "n = 10 ^ f"
      by (auto simp: scientific_def s_def Let_def)
    then show ?thesis by simp
  next
    case False
    with assms(2) have "e = floor_log10 x" and "n = round_half_up s"
      by (auto simp: scientific_def s_def Let_def)
    with r False show ?thesis by simp
  qed
qed

lemma scientific_close:
  assumes "0 < x" and "scientific f x = (e, n)"
  shows "\<bar>of_nat n * 10 powi (e - int f) - x\<bar> \<le> 10 powi (floor_log10 x - int f) / 2"
proof -
  define d where "d = (10::rat) powi (floor_log10 x - int f)"
  define s where "s = x / d"
  have d: "0 < d" by (simp add: d_def)
  have s: "0 \<le> s" using assms(1) d by (simp add: s_def)
  have x: "x = s * d" using d by (simp add: s_def)
  have v: "of_nat n * 10 powi (e - int f) = of_nat (round_half_up s) * d"
  proof (cases "round_half_up s = 10 ^ Suc f")
    case True
    with assms(2) have "e = floor_log10 x + 1" and "n = 10 ^ f"
      by (auto simp: scientific_def s_def d_def Let_def)
    moreover have "(10::rat) powi (floor_log10 x + 1 - int f) = 10 * d"
      by (simp add: d_def power_int_diff power_int_add)
    ultimately show ?thesis using True by simp
  next
    case False
    with assms(2) have "e = floor_log10 x" and "n = round_half_up s"
      by (auto simp: scientific_def s_def d_def Let_def)
    then show ?thesis by (simp add: d_def)
  qed
  have "\<bar>of_nat (round_half_up s) * d - s * d\<bar> = \<bar>of_nat (round_half_up s) - s\<bar> * d"
    using d by (simp add: abs_mult flip: left_diff_distrib)
  also have "\<dots> \<le> (1 / 2) * d"
    using round_half_up_close [OF s] d by (intro mult_right_mono) simp_all
  finally show ?thesis
    unfolding v x [symmetric] by (simp add: d_def)
qed

subsection \<open>The forms of the results\<close>

lemma is_digit_simps [simp]:
  "\<not> is_digit CHR ''e''" "\<not> is_digit CHR ''.''" "\<not> is_digit CHR ''-''"
  "\<not> is_digit CHR '',''" "\<not> is_digit CHR ''+''" "is_digit CHR ''0''"
  by (simp_all add: is_digit_def)

lemma all_digits_free:
  assumes "list_all is_digit xs" and "\<not> is_digit c"
  shows "c \<notin> set xs"
  using assms by (auto simp: list_all_iff)

lemma before_split: "c \<notin> set xs \<Longrightarrow> before c (xs @ c # ys) = xs"
  by (induction xs) (auto simp: before_def)

lemma after_split: "c \<notin> set xs \<Longrightarrow> after c (xs @ c # ys) = ys"
  by (induction xs) (auto simp: after_def)

lemma before_absent: "c \<notin> set xs \<Longrightarrow> before c xs = xs"
  by (induction xs) (auto simp: before_def)

lemma without_sign_sign_part:
  "t \<noteq> [] \<Longrightarrow> hd t \<noteq> CHR ''-'' \<Longrightarrow> without_sign (sign_part x @ t) = t"
  by (cases t) (simp_all add: without_sign_def sign_part_def)

lemma exponential_formI:
  assumes "is_digit d" and "list_all is_digit fr" and "length fr = f"
    and "sg = CHR ''+'' \<or> sg = CHR ''-''" and "ds \<noteq> []" and "list_all is_digit ds"
  shows "exponential_form f (sign_part x @ d # CHR ''.'' # fr @ CHR ''e'' # sg # ds)"
proof -
  let ?t = "d # CHR ''.'' # fr @ CHR ''e'' # sg # ds"
  have u: "without_sign (sign_part x @ ?t) = ?t"
    using assms(1) by (intro without_sign_sign_part) auto
  have e: "CHR ''e'' \<notin> set (d # CHR ''.'' # fr)"
    using assms(1) all_digits_free [OF assms(2), of "CHR ''e''"] by auto
  have b: "before CHR ''e'' ?t = d # CHR ''.'' # fr"
    using before_split [OF e, of "sg # ds"] by simp
  have a: "after CHR ''e'' ?t = sg # ds"
    using after_split [OF e, of "sg # ds"] by simp
  have p: "CHR ''.'' \<notin> set [d]"
    using assms(1) by auto
  have b2: "before CHR ''.'' (d # CHR ''.'' # fr) = [d]"
    using before_split [OF p, of fr] by simp
  have a2: "after CHR ''.'' (d # CHR ''.'' # fr) = fr"
    using after_split [OF p, of fr] by simp
  show ?thesis
    unfolding exponential_form_def u Let_def b a b2 a2
    using assms by auto
qed

lemma fixed_formI:
  assumes "ip \<noteq> []" and "list_all is_digit ip" and "list_all is_digit fp" and "length fp = f"
  shows "fixed_form f (sign_part x @ ip @ CHR ''.'' # fp)"
proof -
  have h: "hd (ip @ CHR ''.'' # fp) \<noteq> CHR ''-''"
    using assms(1,2) by (cases ip) auto
  have u: "without_sign (sign_part x @ ip @ CHR ''.'' # fp) = ip @ CHR ''.'' # fp"
    using h by (intro without_sign_sign_part) auto
  have p: "CHR ''.'' \<notin> set ip"
    using all_digits_free [OF assms(2)] by simp
  show ?thesis
    unfolding fixed_form_def u Let_def before_split [OF p] after_split [OF p]
    using assms by simp
qed

lemma scientific_digits:
  assumes "0 < x" and "scientific f x = (e, n)"
  shows "\<exists>d fr. digits n = d # fr \<and> length fr = f \<and> is_digit d \<and> d \<noteq> CHR ''0'' \<and>
    list_all is_digit fr"
proof -
  from scientific_bounds [OF assms] have lo: "10 ^ f \<le> n" and hi: "n < 10 ^ Suc f"
    by simp_all
  have len: "length (digits n) = Suc f"
    using lo hi by (rule length_digits)
  then obtain d fr where m: "digits n = d # fr"
    by (cases "digits n") auto
  have pos: "0 < n"
    using lo by (metis less_le_trans zero_less_numeral zero_less_power)
  from digits_hd [OF pos] digits_all [of n] len m show ?thesis
    by auto
qed

lemma exponent_part_shape:
  "\<exists>sg ds. exponent_part e = CHR ''e'' # sg # ds \<and> (sg = CHR ''+'' \<or> sg = CHR ''-'') \<and>
     ds \<noteq> [] \<and> list_all is_digit ds"
  by (simp add: exponent_part_def digits_nonempty digits_all)

lemma toExponential_form:
  assumes "a \<noteq> 0" and "f \<noteq> 0"
  shows "exponential_form f (toExponential f a)"
proof -
  obtain e n where s: "scientific f \<bar>a\<bar> = (e, n)"
    by (cases "scientific f \<bar>a\<bar>")
  from assms(1) have "0 < \<bar>a\<bar>" by simp
  from scientific_digits [OF this s] obtain d fr where
    m: "digits n = d # fr" "length fr = f" "is_digit d" "list_all is_digit fr"
    by blast
  obtain sg ds where x: "exponent_part e = CHR ''e'' # sg # ds"
    "sg = CHR ''+'' \<or> sg = CHR ''-''" "ds \<noteq> []" "list_all is_digit ds"
    using exponent_part_shape [of e] by blast
  have "toExponential f a = sign_part a @ d # CHR ''.'' # fr @ CHR ''e'' # sg # ds"
    using assms by (simp add: toExponential_def s m x)
  then show ?thesis
    using exponential_formI [OF m(3) m(4) m(2) x(2) x(3) x(4), of a] by simp
qed

lemma toFixed_form:
  assumes "f \<noteq> 0"
  shows "fixed_form f (toFixed f a)"
proof -
  define n where "n = round_half_up (\<bar>a\<bar> * 10 ^ f)"
  define m where "m = (if length (digits n) \<le> f
    then replicate (f + 1 - length (digits n)) CHR ''0'' @ digits n else digits n)"
  have len: "f < length m"
    by (simp add: m_def)
  have all: "list_all is_digit m"
    using digits_all [of n] by (simp add: m_def list_all_iff)
  have t: "toFixed f a = sign_part a @ take (length m - f) m @ CHR ''.'' # drop (length m - f) m"
    using assms by (simp add: toFixed_def n_def m_def Let_def)
  have 1: "take (length m - f) m \<noteq> []" using len by auto
  have 2: "list_all is_digit (take (length m - f) m)"
    using all by (auto simp: list_all_iff dest: in_set_takeD)
  have 3: "list_all is_digit (drop (length m - f) m)"
    using all by (auto simp: list_all_iff dest: in_set_dropD)
  have 4: "length (drop (length m - f) m) = f" using len by simp
  show ?thesis
    unfolding t by (rule fixed_formI [OF 1 2 3 4])
qed

lemma significant_digits_plain:
  assumes "list_all is_digit m" and "m \<noteq> []" and "hd m \<noteq> CHR ''0''"
  shows "significant_digits (replicate z CHR ''0'' @ m) = m"
proof -
  have f: "filter is_digit m = m"
    using assms(1) by (simp add: list_all_iff)
  have "filter is_digit (replicate z CHR ''0'' @ m) = replicate z CHR ''0'' @ m"
    by (simp add: f)
  moreover have "dropWhile (\<lambda>c. c = CHR ''0'') (replicate z CHR ''0'' @ m) = m"
    using assms(2,3) by (cases m) (simp_all add: dropWhile_append)
  ultimately show ?thesis
    by (simp add: significant_digits_def)
qed

lemma significant_digits_point:
  assumes "list_all is_digit m" and "m \<noteq> []" and "hd m \<noteq> CHR ''0''" and "0 < k"
  shows "significant_digits (take k m @ CHR ''.'' # drop k m) = m"
proof -
  have "filter is_digit (take k m @ CHR ''.'' # drop k m) =
      filter is_digit (take k m) @ filter is_digit (drop k m)"
    by simp
  also have "\<dots> = filter is_digit (take k m @ drop k m)"
    by (simp only: filter_append)
  also have "\<dots> = filter is_digit m"
    by (simp only: append_take_drop_id)
  also have "\<dots> = m"
    using assms(1) by (simp add: list_all_iff)
  finally have "significant_digits (take k m @ CHR ''.'' # drop k m) =
      dropWhile (\<lambda>c. c = CHR ''0'') m"
    by (simp add: significant_digits_def)
  then show ?thesis
    using assms(2,3) by (cases m) simp_all
qed

lemma significant_digits_zero_point:
  assumes "list_all is_digit m" and "m \<noteq> []" and "hd m \<noteq> CHR ''0''"
  shows "significant_digits (''0.'' @ replicate z CHR ''0'' @ m) = m"
proof -
  have "filter is_digit (''0.'' @ replicate z CHR ''0'' @ m) = replicate (Suc z) CHR ''0'' @ m"
    using assms(1) by (simp add: list_all_iff)
  then have "significant_digits (''0.'' @ replicate z CHR ''0'' @ m) =
      dropWhile (\<lambda>c. c = CHR ''0'') (replicate (Suc z) CHR ''0'' @ m)"
    by (simp only: significant_digits_def)
  also have "\<dots> = m"
    using assms(2,3) by (cases m) (simp_all add: dropWhile_append)
  finally show ?thesis .
qed

lemma toPrecision_form:
  assumes "0 < a" and "scientific (p - 1) a = (e, n)" and "- 6 \<le> e" and "e < int p" and "0 < p"
  shows "precision_form p (toPrecision p a)"
proof -
  from assms(1) have abs: "\<bar>a\<bar> = a" and sg: "sign_part a = []" and nz: "a \<noteq> 0"
    by (simp_all add: sign_part_def)
  from scientific_digits [OF assms(1,2)] obtain d fr where
    m: "digits n = d # fr" "length fr = p - 1" "is_digit d" "d \<noteq> CHR ''0''"
      "list_all is_digit fr"
    by blast
  define m where "m = digits n"
  have all: "list_all is_digit m" and ne: "m \<noteq> []" and hd: "hd m \<noteq> CHR ''0''"
    and len: "length m = p"
    using m assms(5) by (simp_all add: m_def)
  have body: "toPrecision p a =
      (if e = int p - 1 then m
       else if 0 \<le> e then take (nat e + 1) m @ CHR ''.'' # drop (nat e + 1) m
       else ''0.'' @ replicate (nat (- (e + 1))) CHR ''0'' @ m)"
    unfolding toPrecision_def abs if_not_P [OF nz] assms(2) sg
    using assms(3,4) by (simp add: m_def Let_def)
  have plain: "list_all (\<lambda>c. is_digit c \<or> c = CHR ''.'') (toPrecision p a)"
    using all unfolding body by (auto simp: list_all_iff dest: in_set_takeD in_set_dropD)
  have un: "without_sign (toPrecision p a) = toPrecision p a"
    using plain by (cases "toPrecision p a") (auto simp: without_sign_def)
  have sig: "significant_digits (toPrecision p a) = m"
  proof (cases "e = int p - 1")
    case True
    then show ?thesis
      using significant_digits_plain [OF all ne hd, of 0] by (simp add: body)
  next
    case False
    show ?thesis
    proof (cases "0 \<le> e")
      case True
      with False show ?thesis
        using significant_digits_point [OF all ne hd, of "nat e + 1"] by (simp add: body)
    next
      case neg: False
      with False show ?thesis
        using significant_digits_zero_point [OF all ne hd, of "nat (- (e + 1))"]
        by (simp add: body)
    qed
  qed
  show ?thesis
    unfolding precision_form_def Let_def un sig using plain len by simp
qed

lemma scientific_exponent_range:
  assumes "10 powi lo \<le> a" and "a < 10 powi hi" and "scientific f a = (e, n)"
  shows "lo \<le> e \<and> e \<le> hi"
proof -
  have pos: "0 < a"
    using assms(1) by (meson less_le_trans zero_less_numeral zero_less_power_int)
  note b = floor_log10_bounds [OF pos]
  have "(10::rat) powi lo < 10 powi (floor_log10 a + 1)"
    using b assms(1) by linarith
  then have 1: "lo < floor_log10 a + 1"
    using power_int_increasing [of "floor_log10 a + 1" lo "10::rat"]
    by (cases "lo < floor_log10 a + 1") auto
  have "(10::rat) powi floor_log10 a < 10 powi hi"
    using b assms(2) by linarith
  then have 2: "floor_log10 a < hi"
    using power_int_increasing [of hi "floor_log10 a" "10::rat"]
    by (cases "floor_log10 a < hi") auto
  from scientific_bounds [OF pos assms(3)] 1 2 show ?thesis by auto
qed

lemma group3_small: "length ds \<le> 3 \<Longrightarrow> group3 ds = ds"
  by (subst group3.simps) simp

lemma group3_step:
  "3 < length ds \<Longrightarrow>
   group3 ds = group3 (take (length ds - 3) ds) @ CHR '','' # drop (length ds - 3) ds"
  by (subst group3.simps) simp

lemma grouped_small: "length s \<le> 3 \<Longrightarrow> grouped s \<longleftrightarrow> s \<noteq> [] \<and> list_all is_digit s"
  by (subst grouped.simps) simp

lemma grouped_step:
  assumes "grouped g" and "list_all is_digit t" and "length t = 3"
  shows "grouped (g @ CHR '','' # t)"
proof -
  let ?s = "g @ CHR '','' # t"
  have l4: "length ?s - 4 = length g" and l3: "length ?s - 3 = Suc (length g)"
    using assms(3) by simp_all
  have "take (length ?s - 4) ?s = g" unfolding l4 by simp
  moreover have "?s ! (length ?s - 4) = CHR '',''" unfolding l4 by simp
  moreover have "drop (length ?s - 3) ?s = t" unfolding l3 by simp
  moreover have "\<not> length ?s \<le> 3" using assms(3) by simp
  ultimately show ?thesis
    using assms(1,2) by (subst grouped.simps) (simp only: if_False simp_thms)
qed

lemma group3_grouped:
  "ds \<noteq> [] \<Longrightarrow> list_all is_digit ds \<Longrightarrow>
   grouped (group3 ds) \<and> hd (group3 ds) = hd ds \<and> group3 ds \<noteq> [] \<and>
   CHR ''.'' \<notin> set (group3 ds)"
proof (induction ds rule: group3.induct)
  case (1 ds)
  show ?case
  proof (cases "length ds \<le> 3")
    case True
    with 1(2,3) all_digits_free [OF 1(3), of "CHR ''.''"] show ?thesis
      by (simp add: group3_small grouped_small)
  next
    case False
    let ?h = "take (length ds - 3) ds" and ?t = "drop (length ds - 3) ds"
    have h: "?h \<noteq> []" using False by auto
    have hd: "list_all is_digit ?h" and td: "list_all is_digit ?t"
      using 1(3) by (auto simp: list_all_iff dest: in_set_takeD in_set_dropD)
    from 1(1) [OF False h hd]
    have ih: "grouped (group3 ?h)" "hd (group3 ?h) = hd ?h" "group3 ?h \<noteq> []"
      "CHR ''.'' \<notin> set (group3 ?h)"
      by simp_all
    have t3: "length ?t = 3" using False by simp
    have g: "group3 ds = group3 ?h @ CHR '','' # ?t"
      using False by (simp add: group3_step)
    have "hd ?h = hd ds" using h by (cases ds) (auto simp: take_Cons')
    moreover have "CHR ''.'' \<notin> set ?t"
      using all_digits_free [OF td, of "CHR ''.''"] by simp
    ultimately show ?thesis
      unfolding g using grouped_step [OF ih(1) td t3] ih by simp
  qed
qed

lemma fraction_digits:
  assumes "r < 10 ^ k" and "0 < k"
  shows "length (replicate (k - length (digits r)) CHR ''0'' @ digits r) = k"
proof (cases "r = 0")
  case True
  then show ?thesis
    using assms by (cases k) (simp_all add: digits_small)
next
  case False
  then have pos: "0 < r" by simp
  from digits_bounds [OF pos] assms(1) have "(10::nat) ^ (length (digits r) - 1) < 10 ^ k"
    by (meson le_less_trans)
  then have "length (digits r) - 1 < k" by simp
  then show ?thesis by simp
qed

lemma Intl_form:
  assumes "0 < k"
  shows "grouped_form k (Intl_NumberFormat_format k a)"
proof -
  define n where "n = round_half_up (\<bar>a\<bar> * 10 ^ k)"
  define g where "g = group3 (digits (n div 10 ^ k))"
  define fr0 where "fr0 = replicate (k - length (digits (n mod 10 ^ k))) CHR ''0'' @
    digits (n mod 10 ^ k)"
  define fr where "fr = rev (dropWhile (\<lambda>c. c = CHR ''0'') (rev fr0))"
  have out: "Intl_NumberFormat_format k a =
      sign_part a @ g @ (if fr = [] then [] else CHR ''.'' # fr)"
    by (simp only: Intl_NumberFormat_format_def Let_def n_def g_def fr0_def fr_def
        append_Cons append_Nil)
  from group3_grouped [OF digits_nonempty digits_all, of "n div 10 ^ k"]
  have g: "grouped g" "hd g = hd (digits (n div 10 ^ k))" "g \<noteq> []" "CHR ''.'' \<notin> set g"
    by (simp_all add: g_def)
  have "is_digit (hd (digits (n div 10 ^ k)))"
    using digits_all [of "n div 10 ^ k"] digits_nonempty [of "n div 10 ^ k"]
    by (cases "digits (n div 10 ^ k)") simp_all
  then have hg: "hd g \<noteq> CHR ''-''"
    using g(2) by auto
  have l0: "length fr0 = k"
    unfolding fr0_def using assms by (intro fraction_digits) simp_all
  have d0: "list_all is_digit fr0"
    using digits_all [of "n mod 10 ^ k"] by (auto simp: fr0_def list_all_iff)
  have "set fr \<subseteq> set fr0"
    unfolding fr_def using set_dropWhileD by fastforce
  with d0 have d: "list_all is_digit fr"
    by (auto simp: list_all_iff)
  have "length fr \<le> length fr0"
    unfolding fr_def by (simp add: length_dropWhile_le [of _ "rev fr0", simplified])
  with l0 have l: "length fr \<le> k" by simp
  show ?thesis
  proof (cases "fr = []")
    case True
    have u: "without_sign (Intl_NumberFormat_format k a) = g"
      unfolding out using True without_sign_sign_part [OF g(3) hg] by simp
    show ?thesis
      unfolding grouped_form_def u Let_def using g by (simp add: before_absent)
  next
    case False
    have "hd (g @ CHR ''.'' # fr) \<noteq> CHR ''-''" using g(3) hg by simp
    then have u: "without_sign (Intl_NumberFormat_format k a) = g @ CHR ''.'' # fr"
      unfolding out using False without_sign_sign_part [of "g @ CHR ''.'' # fr" a] by simp
    show ?thesis
      unfolding grouped_form_def u Let_def before_split [OF g(4)] after_split [OF g(4)]
      using g(1) d l False by (cases fr) simp_all
  qed
qed

subsection \<open>The branches of the source, and examples\<close>

lemmas eval_simps = floor_rat_numeral ceiling_rat_numeral digits_small digits_step
  group3_small group3_step digit_def round_half_up_def sign_part_def exponent_part_def Let_def

text \<open>
  The literal \<^verbatim>\<open>0.0001\<close> denotes the double \<open>7378697629483821 / 2\<^sup>6\<^sup>6\<close>. Doubles of this
  size are the multiples of \<open>1 / 2\<^sup>6\<^sup>6\<close>; the literal is above \<open>1 / 10000\<close> and the multiple
  before it is below.
\<close>

lemma literal_0_0001:
  "(1 / 10000 :: number) < 7378697629483821 / 2 ^ 66 \<and>
   (7378697629483820 / 2 ^ 66 :: number) < 1 / 10000"
  by simp

lemma formatAmount_exponential:
  assumes "a \<noteq> 0" and "a < 1 / 10000"
  shows "formatAmount a = js (toExponential 4 a) \<and> exponential_form 4 (toExponential 4 a)"
  using assms toExponential_form [of a 4] by (simp add: formatAmount_def)

lemma formatAmount_precision:
  assumes "1 / 10000 \<le> a" and "a < 1"
  shows "formatAmount a = js (toPrecision 4 a) \<and> precision_form 4 (toPrecision 4 a)"
proof -
  obtain e n where s: "scientific (4 - 1) a = (e, n)"
    by (cases "scientific (4 - 1) a")
  have "10 powi (- 4) \<le> a" and "a < 10 powi 0"
    using assms by simp_all
  from scientific_exponent_range [OF this s] have e: "- 4 \<le> e" "e \<le> 0"
    by simp_all
  have pos: "0 < a" using assms(1) by simp
  have "precision_form 4 (toPrecision 4 a)"
    using e by (intro toPrecision_form [OF pos s]) simp_all
  with assms pos show ?thesis
    by (simp add: formatAmount_def)
qed

lemma formatAmount_fixed:
  assumes "1 \<le> a" and "a < 1000"
  shows "formatAmount a = js (toFixed 4 a) \<and> fixed_form 4 (toFixed 4 a)"
  using assms toFixed_form [of 4 a] by (simp add: formatAmount_def)

lemma formatAmount_grouped:
  assumes "1000 \<le> a"
  shows "formatAmount a = js (Intl_NumberFormat_format 2 a) \<and>
    grouped_form 2 (Intl_NumberFormat_format 2 a)"
  using assms Intl_form [of 2 a] by (simp add: formatAmount_def)

lemma formatAmount_123: "formatAmount (123456789 / 1000000) = js ''123.4568''"
  by (simp add: formatAmount_def toFixed_def eval_simps)

lemma formatAmount_123_double:
  "formatAmount (8687499202136843 / 70368744177664) = js ''123.4568''"
  by (simp add: formatAmount_def toFixed_def eval_simps)

lemma scientific_5e5: "scientific 4 (1 / 20000) = (- 5, 50000)"
  by (simp add: scientific_def floor_log10_def eval_simps)

lemma formatAmount_5e5: "formatAmount (5 / 100000) = js ''5.0000e-5''"
  by (simp add: formatAmount_def toExponential_def scientific_5e5 eval_simps)

lemma scientific_5e5_double:
  "scientific 4 (7378697629483821 / 147573952589676412928) = (- 5, 50000)"
  by (simp add: scientific_def floor_log10_def eval_simps)

lemma formatAmount_5e5_double:
  "formatAmount (7378697629483821 / 147573952589676412928) = js ''5.0000e-5''"
  by (simp add: formatAmount_def toExponential_def scientific_5e5_double eval_simps)

lemma scientific_5: "scientific 4 5 = (0, 50000)"
  by (simp add: scientific_def floor_log10_def eval_simps)

lemma formatAmount_minus_5: "formatAmount (- 5) = js ''-5.0000e+0''"
  by (simp add: formatAmount_def toExponential_def scientific_5 eval_simps)

lemma not_fixed: "\<not> fixed_form 4 ''-5.0000e+0''"
  by (simp add: fixed_form_def without_sign_def before_def after_def is_digit_def)

lemma toFixed_5: "toFixed 4 (- 5) = ''-5.0000''"
  by (simp add: toFixed_def eval_simps)

lemma scientific_half: "scientific 3 (1 / 2) = (- 1, 5000)"
  by (simp add: scientific_def floor_log10_def eval_simps)

lemma formatAmount_half: "formatAmount (1 / 2) = js ''0.5000''"
  by (simp add: formatAmount_def toPrecision_def scientific_half eval_simps)

lemma formatAmount_million: "formatAmount 1234567 = js ''1,234,567''"
  by (simp add: formatAmount_def Intl_NumberFormat_format_def eval_simps)

lemma formatAmount_grouped_fraction: "formatAmount (24691357 / 20) = js ''1,234,567.85''"
  by (simp add: formatAmount_def Intl_NumberFormat_format_def eval_simps)

lemma toExponential_5e5: "toExponential 4 (1 / 20000) = ''5.0000e-5''"
  by (simp add: toExponential_def scientific_5e5 eval_simps)

lemma toExponential_minus_5: "toExponential 4 (- 5) = ''-5.0000e+0''"
  by (simp add: toExponential_def scientific_5 eval_simps)

lemma toPrecision_half: "toPrecision 4 (1 / 2) = ''0.5000''"
  by (simp add: toPrecision_def scientific_half eval_simps)

lemma toFixed_123: "toFixed 4 (123456789 / 1000000) = ''123.4568''"
  by (simp add: toFixed_def eval_simps)

lemma Intl_million: "Intl_NumberFormat_format 2 1234567 = ''1,234,567''"
  by (simp add: Intl_NumberFormat_format_def eval_simps)

lemma Intl_fraction: "Intl_NumberFormat_format 2 (24691357 / 20) = ''1,234,567.85''"
  by (simp add: Intl_NumberFormat_format_def eval_simps)

chapter \<open>The claims\<close>

section \<open>C1: the address validator\<close>

text \<open>
  Claim C1. For every string \<open>s\<close>, the validator accepts \<open>s\<close> if and only if \<open>s\<close> has
  the form \<^verbatim>\<open>^0x[0-9a-fA-F]+$\<close> and exactly 42 code units. In particular it rejects the
  empty string, every string with a code unit after the prefix that is not a
  hexadecimal digit, and every string whose length is not 42; and a call of
  \<^verbatim>\<open>fetchBalances\<close> on a rejected address sends no request, whatever the key and the
  network are.
\<close>

theorem validator_accepts_iff:
  "(isValidEthereumAddress s \<longleftrightarrow> spec_address_form s \<and> length s = 42) \<and>
   \<not> isValidEthereumAddress [] \<and>
   (\<not> list_all hex_digit (drop 2 s) \<longrightarrow> \<not> isValidEthereumAddress s) \<and>
   (length s \<noteq> 42 \<longrightarrow> \<not> isValidEthereumAddress s) \<and>
   (\<not> isValidEthereumAddress s \<longrightarrow>
      sent (fetchBalances key net (step key (Change s) w)) = sent w)"
proof -
  have "\<not> isValidEthereumAddress s \<Longrightarrow>
      sent (fetchBalances key net (step key (Change s) w)) = sent w"
    using fetch_rejected [of "step key (Change s) w" key net]
    by (simp add: step_def setError_def)
  then show ?thesis
    by (auto simp: isValid_iff spec_address_form_def)
qed

theorem validator_accepts_iff_witness:
  "isValidEthereumAddress (js ''0x52908400098527886E0F7030069857D2E4169EE7'') \<and>
   \<not> isValidEthereumAddress (js ''0x52908400098527886E0F7030069857D2E4169EEg'') \<and>
   \<not> isValidEthereumAddress (js ''0x52908400098527886E0F7030069857D2E4169EE'') \<and>
   sent (fetchBalances (Some (js ''k'')) (\<lambda>rq. Resolved [])
          (step (Some (js ''k'')) (Change (js ''0x52908400098527886E0F7030069857D2E4169EE''))
             (initial_world None))) = []"
proof -
  have a: "isValidEthereumAddress (js ''0x52908400098527886E0F7030069857D2E4169EE7'')"
    using validator_accepts_iff [of "js ''0x52908400098527886E0F7030069857D2E4169EE7''"]
    by (simp add: spec_address_form_def js_def hex_digit_def)
  have b: "\<not> isValidEthereumAddress (js ''0x52908400098527886E0F7030069857D2E4169EEg'')"
    using validator_accepts_iff [of "js ''0x52908400098527886E0F7030069857D2E4169EEg''"]
    by (simp add: spec_address_form_def js_def hex_digit_def)
  have c: "\<not> isValidEthereumAddress (js ''0x52908400098527886E0F7030069857D2E4169EE'')"
    using validator_accepts_iff [of "js ''0x52908400098527886E0F7030069857D2E4169EE''"]
    by (simp add: js_def)
  have "sent (fetchBalances (Some (js ''k'')) (\<lambda>rq. Resolved [])
          (step (Some (js ''k'')) (Change (js ''0x52908400098527886E0F7030069857D2E4169EE''))
             (initial_world None))) = sent (initial_world None)"
    using c validator_accepts_iff [of "js ''0x52908400098527886E0F7030069857D2E4169EE''" "Some (js ''k'')"
        "\<lambda>rq. Resolved []" "initial_world None"]
    by blast
  with a b c show ?thesis by (simp add: initial_world_def)
qed

section \<open>C2: the lists and the total after a successful fetch\<close>

text \<open>
  Claim C2. After a fetch that passes the checks and whose request resolves, the list
  \<^verbatim>\<open>allBalances\<close> is sorted by descending USD value (and holds the valid tokens of
  the answer, each as often as the answer does), \<^verbatim>\<open>balances\<close> is the part of that
  sorted list with a USD value of at least 10, in the same order, and \<^verbatim>\<open>totalValue\<close>
  is the sum of the USD values over the whole sorted list, added from the first entry
  to the last in the arithmetic of doubles, as \<^verbatim>\<open>reduce\<close> adds them.
\<close>

theorem fetch_success_lists:
  assumes "isValidEthereumAddress (address (ui w))" and "\<not> falsy key"
    and "net (tokens_request (address (ui w))) = Resolved result"
  shows "sorted_wrt (\<lambda>a b. usd a \<ge> usd b) (allBalances (ui (fetchBalances key net w))) \<and>
    mset (allBalances (ui (fetchBalances key net w))) = mset (validTokens result) \<and>
    balances (ui (fetchBalances key net w)) =
      filter (\<lambda>t. usd t \<ge> 10) (allBalances (ui (fetchBalances key net w))) \<and>
    totalValue (ui (fetchBalances key net w)) =
      foldl double_plus (Finite 0)
        (map (\<lambda>t. Finite (usd t)) (allBalances (ui (fetchBalances key net w))))"
  using fetch_resolved [of w key net result] assms
  by (simp add: sorted_sortedBalances mset_sortedBalances filteredBalances_def total_usd_fold)

text \<open>
  On the example answer the total is 30, over the three valid tokens, where the two
  tokens of the shorter list add up to 25. On the answer with the values \<^verbatim>\<open>0.1\<close> and
  \<^verbatim>\<open>0.2\<close> the total is the double that prints as \<^verbatim>\<open>0.30000000000000004\<close>.
\<close>

theorem fetch_success_lists_witness:
  "isValidEthereumAddress (address (ui example_world)) \<and> \<not> falsy example_key \<and>
   example_net (tokens_request (address (ui example_world))) = Resolved example_result \<and>
   sorted_wrt (\<lambda>a b. usd a \<ge> usd b)
     (allBalances (ui (fetchBalances example_key example_net example_world))) \<and>
   mset (allBalances (ui (fetchBalances example_key example_net example_world))) =
     mset (validTokens example_result) \<and>
   balances (ui (fetchBalances example_key example_net example_world)) =
     filter (\<lambda>t. usd t \<ge> 10)
       (allBalances (ui (fetchBalances example_key example_net example_world))) \<and>
   totalValue (ui (fetchBalances example_key example_net example_world)) =
     foldl double_plus (Finite 0)
       (map (\<lambda>t. Finite (usd t))
         (allBalances (ui (fetchBalances example_key example_net example_world)))) \<and>
   totalValue (ui (fetchBalances example_key example_net example_world)) = Finite 30 \<and>
   total_usd (balances (ui (fetchBalances example_key example_net example_world))) =
     Finite 25 \<and>
   fraction_net (tokens_request (address (ui example_world))) = Resolved example_fractions \<and>
   totalValue (ui (fetchBalances example_key fraction_net example_world)) =
     Finite (1351079888211149 / 4503599627370496)"
proof -
  have v: "isValidEthereumAddress (address (ui example_world))"
    by (simp add: example_world_address example_address_valid)
  have n: "example_net (tokens_request (address (ui example_world))) = Resolved example_result"
    by (simp add: example_net_def)
  have t: "totalValue (ui (fetchBalances example_key example_net example_world)) = Finite 30"
    by (simp add: example_fetch)
  have b: "total_usd (balances (ui (fetchBalances example_key example_net example_world))) =
      Finite 25"
    by (simp add: example_fetch example_filtered_total)
  have m: "fraction_net (tokens_request (address (ui example_world))) =
      Resolved example_fractions"
    by (simp add: fraction_net_def)
  have "totalValue (ui (fetchBalances example_key fraction_net example_world)) =
      total_usd (sortedBalances example_fractions)"
    using fetch_success_lists [of example_world example_key fraction_net example_fractions,
        OF v example_key_set m]
      fetch_resolved [of example_world example_key fraction_net example_fractions,
        OF v example_key_set m]
    by (simp add: total_usd_fold)
  then have f: "totalValue (ui (fetchBalances example_key fraction_net example_world)) =
      Finite (1351079888211149 / 4503599627370496)"
    by (simp add: fractions_total)
  from fetch_success_lists [of example_world example_key example_net example_result,
      OF v example_key_set n]
    v n t b m f example_key_set show ?thesis
    by blast
qed

section \<open>C3: the shorter list is drawn from the longer one\<close>

text \<open>
  Claim C3. In every state the page can reach from its start, by any sequence of its
  events and whatever the requests answer, \<^verbatim>\<open>balances\<close> consists exactly of the entries
  of \<^verbatim>\<open>allBalances\<close> with a USD value of at least 10, in the order they have there, and
  \<^verbatim>\<open>allBalances\<close> descends by USD value.
\<close>

theorem filtered_list_invariant:
  "balances (ui (run key (initial_world stored) evs)) =
     filter (\<lambda>t. usd t \<ge> 10) (allBalances (ui (run key (initial_world stored) evs))) \<and>
   sorted_wrt (\<lambda>a b. usd a \<ge> usd b) (allBalances (ui (run key (initial_world stored) evs)))"
proof -
  have "lists_agree (ui (initial_world stored))"
    by (simp add: lists_agree_def initial_world_def initial_state_def)
  then have "lists_agree (ui (run key (initial_world stored) evs))"
    by (rule lists_agree_run)
  then show ?thesis
    by (simp add: lists_agree_def)
qed

theorem filtered_list_invariant_witness:
  "balances (ui (run example_key (initial_world None) example_events)) =
     filter (\<lambda>t. usd t \<ge> 10)
       (allBalances (ui (run example_key (initial_world None) example_events))) \<and>
   sorted_wrt (\<lambda>a b. usd a \<ge> usd b)
     (allBalances (ui (run example_key (initial_world None) example_events))) \<and>
   allBalances (ui (run example_key (initial_world None) example_events)) =
     [example_token ''BBB'' False (Some 15), example_token ''CCC'' False (Some 10),
      example_token ''AAA'' False (Some 5)] \<and>
   balances (ui (run example_key (initial_world None) example_events)) =
     [example_token ''BBB'' False (Some 15), example_token ''CCC'' False (Some 10)]"
  using filtered_list_invariant [of example_key None example_events]
  by (simp add: example_run example_fetch)

section \<open>C4: what an error leaves on the page\<close>

text \<open>
  Claim C4 says that every fetch ending in an error, a validation error included,
  clears the lists and the total on display. The source returns from a failed check
  before it touches the lists: after a successful fetch, a submission of the address
  \<open>0x123\<close> shows the message on the address above the table of the earlier fetch, with
  its total.
\<close>

theorem validation_error_keeps_table:
  "error (ui (fetchBalances example_key example_net stale_world)) = Some msg_invalid_address \<and>
   balances (ui (fetchBalances example_key example_net stale_world)) =
     [example_token ''BBB'' False (Some 15), example_token ''CCC'' False (Some 10)] \<and>
   shown (render (ui (fetchBalances example_key example_net stale_world))) =
     Table [example_token ''BBB'' False (Some 15), example_token ''CCC'' False (Some 10)]
       (Finite 30)"
proof -
  have a: "address (ui stale_world) = js ''0x123''"
    by (simp add: stale_world_ui)
  have "\<not> isValidEthereumAddress (js ''0x123'')"
    by (simp add: isValid_iff js_def)
  then have "fetchBalances example_key example_net stale_world =
      setError (Some msg_invalid_address) stale_world"
    using fetch_rejected [of stale_world example_key example_net]
    by (simp add: a example_key_set) (simp add: js_def)
  then show ?thesis
    by (simp add: setError_def stale_world_ui example_fetch render_def initial_state_def)
qed

text \<open>
  Claim C4, amended. A fetch whose request fails leaves both lists empty, so that the
  page shows neither a table nor a total under the message; the state cell
  \<^verbatim>\<open>totalValue\<close> keeps its value, which is not on display. A fetch that ends in a failed
  check sets the message and leaves the lists, the total and what is shown as they
  were.
\<close>

theorem error_display:
  "(isValidEthereumAddress (address (ui w)) \<and> \<not> falsy key \<and>
    net (tokens_request (address (ui w))) = Rejected e \<longrightarrow>
      error (ui (fetchBalances key net w)) = Some (error_text e) \<and>
      balances (ui (fetchBalances key net w)) = [] \<and>
      allBalances (ui (fetchBalances key net w)) = [] \<and>
      shown (render (ui (fetchBalances key net w))) = Blank \<and>
      totalValue (ui (fetchBalances key net w)) = totalValue (ui w)) \<and>
   (\<not> isValidEthereumAddress (address (ui w)) \<or> falsy key \<longrightarrow>
      error (ui (fetchBalances key net w)) =
        Some (if address (ui w) = [] then msg_enter_address
              else if falsy key then msg_key_not_found else msg_invalid_address) \<and>
      balances (ui (fetchBalances key net w)) = balances (ui w) \<and>
      allBalances (ui (fetchBalances key net w)) = allBalances (ui w) \<and>
      totalValue (ui (fetchBalances key net w)) = totalValue (ui w) \<and>
      shown (render (ui (fetchBalances key net w))) = shown (render (ui w)))"
proof -
  have one: "error (ui (fetchBalances key net w)) = Some (error_text e) \<and>
      balances (ui (fetchBalances key net w)) = [] \<and>
      allBalances (ui (fetchBalances key net w)) = [] \<and>
      shown (render (ui (fetchBalances key net w))) = Blank \<and>
      totalValue (ui (fetchBalances key net w)) = totalValue (ui w)"
    if "isValidEthereumAddress (address (ui w))" "\<not> falsy key"
      "net (tokens_request (address (ui w))) = Rejected e"
    using fetch_failed [of w key net e, OF that] by (simp add: render_def)
  have two: "error (ui (fetchBalances key net w)) =
        Some (if address (ui w) = [] then msg_enter_address
              else if falsy key then msg_key_not_found else msg_invalid_address) \<and>
      balances (ui (fetchBalances key net w)) = balances (ui w) \<and>
      allBalances (ui (fetchBalances key net w)) = allBalances (ui w) \<and>
      totalValue (ui (fetchBalances key net w)) = totalValue (ui w) \<and>
      shown (render (ui (fetchBalances key net w))) = shown (render (ui w))"
    if "\<not> isValidEthereumAddress (address (ui w)) \<or> falsy key"
    using fetch_rejected [of w key net, OF that] by (simp add: setError_def render_def)
  from one two show ?thesis by blast
qed

theorem error_display_witness:
  "isValidEthereumAddress (address (ui (step example_key (Change example_address) stale_world))) \<and>
   \<not> falsy example_key \<and>
   error (ui (fetchBalances example_key (\<lambda>rq. Rejected example_fault)
     (step example_key (Change example_address) stale_world))) =
       Some (js ''Hata: Network Error'') \<and>
   shown (render (ui (fetchBalances example_key (\<lambda>rq. Rejected example_fault)
     (step example_key (Change example_address) stale_world)))) = Blank \<and>
   totalValue (ui (fetchBalances example_key (\<lambda>rq. Rejected example_fault)
     (step example_key (Change example_address) stale_world))) = Finite 30 \<and>
   error (ui (fetchBalances example_key example_net stale_world)) = Some msg_invalid_address \<and>
   totalValue (ui (fetchBalances example_key example_net stale_world)) = Finite 30"
proof -
  let ?w = "step example_key (Change example_address) stale_world"
  have v: "isValidEthereumAddress (address (ui ?w))"
    by (simp add: step_def example_address_valid)
  have t: "totalValue (ui ?w) = Finite 30" "totalValue (ui stale_world) = Finite 30"
    by (simp_all add: step_def stale_world_ui example_fetch)
  have m: "error_text example_fault = js ''Hata: Network Error''"
    by (simp add: error_text_def errorMessage_def example_fault_def response_status_def
        response_data_message_def or_else_def falsy_def js_def)
  have i: "\<not> isValidEthereumAddress (address (ui stale_world))" "address (ui stale_world) \<noteq> []"
    by (simp_all add: stale_world_ui isValid_iff js_def)
  from error_display [of ?w example_key "\<lambda>rq. Rejected example_fault" example_fault] v example_key_set
  have one: "error (ui (fetchBalances example_key (\<lambda>rq. Rejected example_fault) ?w)) =
       Some (js ''Hata: Network Error'') \<and>
     shown (render (ui (fetchBalances example_key (\<lambda>rq. Rejected example_fault) ?w))) = Blank \<and>
     totalValue (ui (fetchBalances example_key (\<lambda>rq. Rejected example_fault) ?w)) = Finite 30"
    by (simp add: t m)
  from error_display [of stale_world example_key example_net] i example_key_set
  have two: "error (ui (fetchBalances example_key example_net stale_world)) = Some msg_invalid_address \<and>
   totalValue (ui (fetchBalances example_key example_net stale_world)) = Finite 30"
    by (simp add: t)
  from v example_key_set one two show ?thesis by blast
qed

section \<open>C5: the format of an amount\<close>

text \<open>
  Claim C5 words the branches by the magnitude of the amount. The source compares the
  amount itself, so that a negative amount of any magnitude takes the exponential
  branch: \<open>-5\<close>, of magnitude between 1 and 1000, is formatted as \<open>-5.0000e+0\<close> and not
  with four decimal places as \<open>-5.0000\<close>.
\<close>

theorem negative_amount_is_exponential:
  "1 \<le> \<bar>- 5 :: number\<bar> \<and> \<bar>- 5 :: number\<bar> < 1000 \<and>
   formatAmount (- 5) = js ''-5.0000e+0'' \<and>
   \<not> fixed_form 4 ''-5.0000e+0'' \<and>
   formatAmount (- 5) \<noteq> js (toFixed 4 (- 5))"
  by (simp add: formatAmount_minus_5 not_fixed toFixed_5) (simp add: js_def)

text \<open>
  Claim C5, amended. For every finite number \<open>a\<close>, \<^verbatim>\<open>formatAmount(a)\<close> is the literal \<open>0\<close>
  when \<open>a = 0\<close>; the exponential notation with 4 fraction digits when \<open>a < 0.0001\<close> and
  \<open>a \<noteq> 0\<close>, every negative amount included; the plain notation with 4 significant
  digits when \<open>0.0001 \<le> a < 1\<close>; the fixed notation with 4 decimal places when
  \<open>1 \<le> a < 1000\<close>; the grouped form with at most 2 fraction digits when \<open>a \<ge> 1000\<close>. In
  particular \<^verbatim>\<open>formatAmount(123.456789)\<close> is \<open>123.4568\<close> and \<^verbatim>\<open>formatAmount(0.00005)\<close> is
  the exponential \<open>5.0000e-5\<close>.
\<close>

theorem format_amount_policy:
  "formatAmount 0 = js ''0'' \<and>
   (a \<noteq> 0 \<and> a < 1 / 10000 \<longrightarrow>
      formatAmount a = js (toExponential 4 a) \<and> exponential_form 4 (toExponential 4 a)) \<and>
   (1 / 10000 \<le> a \<and> a < 1 \<longrightarrow>
      formatAmount a = js (toPrecision 4 a) \<and> precision_form 4 (toPrecision 4 a)) \<and>
   (1 \<le> a \<and> a < 1000 \<longrightarrow>
      formatAmount a = js (toFixed 4 a) \<and> fixed_form 4 (toFixed 4 a)) \<and>
   (1000 \<le> a \<longrightarrow>
      formatAmount a = js (Intl_NumberFormat_format 2 a) \<and>
      grouped_form 2 (Intl_NumberFormat_format 2 a)) \<and>
   formatAmount (123456789 / 1000000) = js ''123.4568'' \<and>
   formatAmount (5 / 100000) = js ''5.0000e-5''"
proof -
  have "formatAmount 0 = js ''0''"
    by (simp add: formatAmount_def)
  then show ?thesis
    using formatAmount_exponential [of a] formatAmount_precision [of a]
      formatAmount_fixed [of a] formatAmount_grouped [of a] formatAmount_123 formatAmount_5e5
    by blast
qed

theorem format_amount_policy_witness:
  "formatAmount (1 / 20000) = js ''5.0000e-5'' \<and> exponential_form 4 ''5.0000e-5'' \<and>
   formatAmount (- 5) = js ''-5.0000e+0'' \<and> exponential_form 4 ''-5.0000e+0'' \<and>
   formatAmount (1 / 2) = js ''0.5000'' \<and> precision_form 4 ''0.5000'' \<and>
   formatAmount (123456789 / 1000000) = js ''123.4568'' \<and> fixed_form 4 ''123.4568'' \<and>
   formatAmount 1234567 = js ''1,234,567'' \<and> grouped_form 2 ''1,234,567'' \<and>
   formatAmount (24691357 / 20) = js ''1,234,567.85'' \<and> grouped_form 2 ''1,234,567.85'' \<and>
   formatAmount (8687499202136843 / 70368744177664) = js ''123.4568'' \<and>
   formatAmount (7378697629483821 / 147573952589676412928) = js ''5.0000e-5''"
proof -
  have 1: "formatAmount (1 / 20000) = js ''5.0000e-5'' \<and> exponential_form 4 ''5.0000e-5''"
    using format_amount_policy [of "1 / 20000"] by (simp add: toExponential_5e5)
  have 2: "formatAmount (- 5) = js ''-5.0000e+0'' \<and> exponential_form 4 ''-5.0000e+0''"
    using format_amount_policy [of "- 5"] by (simp add: toExponential_minus_5)
  have 3: "formatAmount (1 / 2) = js ''0.5000'' \<and> precision_form 4 ''0.5000''"
    using format_amount_policy [of "1 / 2"] by (simp add: toPrecision_half)
  have 4: "formatAmount (123456789 / 1000000) = js ''123.4568'' \<and> fixed_form 4 ''123.4568''"
    using format_amount_policy [of "123456789 / 1000000"] by (simp add: toFixed_123)
  have 5: "formatAmount 1234567 = js ''1,234,567'' \<and> grouped_form 2 ''1,234,567''"
    using format_amount_policy [of 1234567] by (simp add: Intl_million)
  have 6: "formatAmount (24691357 / 20) = js ''1,234,567.85'' \<and>
      grouped_form 2 ''1,234,567.85''"
    using format_amount_policy [of "24691357 / 20"] by (simp add: Intl_fraction)
  from 1 2 3 4 5 6 formatAmount_123_double formatAmount_5e5_double show ?thesis by blast
qed

section \<open>C6: the recent addresses\<close>

text \<open>
  Claim C6. Whenever a submitted address passes the checks, whatever the request then
  does, the address is put in front of the recent list, every earlier entry equal to
  it (code unit by code unit) is removed, and the list is cut to five entries; the
  same list is stored. Adding an address twice leaves it once, at the front, and
  adding an address to five others evicts the last of them.
\<close>

theorem recent_list_update:
  "(isValidEthereumAddress (address (ui w)) \<and> \<not> falsy key \<longrightarrow>
      recentAddresses (ui (fetchBalances key net w)) =
        take 5 (address (ui w) # filter (\<lambda>x. x \<noteq> address (ui w)) (recentAddresses (ui w))) \<and>
      stored_recentAddresses (fetchBalances key net w) =
        Some (recentAddresses (ui (fetchBalances key net w))) \<and>
      length (recentAddresses (ui (fetchBalances key net w))) \<le> 5) \<and>
   updated_recent a (updated_recent a xs) = updated_recent a xs \<and>
   hd (updated_recent a xs) = a \<and> count_list (updated_recent a xs) a = 1 \<and>
   (length xs = 5 \<and> a \<notin> set xs \<longrightarrow> updated_recent a xs = a # butlast xs)"
proof -
  have "recentAddresses (ui (fetchBalances key net w)) =
        updated_recent (address (ui w)) (recentAddresses (ui w)) \<and>
      stored_recentAddresses (fetchBalances key net w) =
        Some (recentAddresses (ui (fetchBalances key net w)))"
    if "isValidEthereumAddress (address (ui w))" "\<not> falsy key"
    by (cases "net (tokens_request (address (ui w)))")
      (simp_all add: fetch_accepted [OF that] fetchBalances_settle_def addToRecent_def Let_def)
  then show ?thesis
    using updated_recent_length [of "address (ui w)" "recentAddresses (ui w)"]
    by (auto simp: updated_recent_twice updated_recent_once updated_recent_evicts
        updated_recent_def [of "address (ui w)"])
qed

theorem recent_list_update_witness:
  "isValidEthereumAddress (address (ui example_world)) \<and> \<not> falsy example_key \<and>
   recentAddresses (ui (fetchBalances example_key example_net example_world)) =
     [example_address] \<and>
   stored_recentAddresses (fetchBalances example_key example_net example_world) =
     Some [example_address] \<and>
   length example_recent = 5 \<and> js ''0x6'' \<notin> set example_recent \<and>
   updated_recent (js ''0x6'') example_recent =
     [js ''0x6'', js ''0x1'', js ''0x2'', js ''0x3'', js ''0x4''] \<and>
   updated_recent (js ''0x6'') (updated_recent (js ''0x6'') example_recent) =
     [js ''0x6'', js ''0x1'', js ''0x2'', js ''0x3'', js ''0x4'']"
proof -
  have v: "isValidEthereumAddress (address (ui example_world))"
    by (simp add: example_world_address example_address_valid)
  have r: "recentAddresses (ui example_world) = []"
    by (simp add: example_world_def step_def initial_world_def initial_state_def)
  have l: "length example_recent = 5"
    by (simp add: example_recent_def)
  have m: "js ''0x6'' \<notin> set example_recent"
    by (simp add: example_recent_def js_def)
  note c6 = recent_list_update [of example_world example_key example_net "js ''0x6''" example_recent]
  have one: "recentAddresses (ui (fetchBalances example_key example_net example_world)) =
     [example_address] \<and>
   stored_recentAddresses (fetchBalances example_key example_net example_world) =
     Some [example_address]"
    using c6 v example_key_set by (simp add: r example_world_address)
  have two: "updated_recent (js ''0x6'') example_recent =
     [js ''0x6'', js ''0x1'', js ''0x2'', js ''0x3'', js ''0x4'']"
    using c6 l m by (simp add: example_recent_def)
  have three: "updated_recent (js ''0x6'') (updated_recent (js ''0x6'') example_recent) =
     [js ''0x6'', js ''0x1'', js ''0x2'', js ''0x3'', js ''0x4'']"
    using c6 two by simp
  from v example_key_set one l m two three show ?thesis by blast
qed

section \<open>C7: the message of a failed request\<close>

text \<open>
  Claim C7. When the request of a fetch fails, the message shown is \<open>Hata: \<close> followed
  by: the rate limit message when the response has status 429, a message that differs
  from the generic one; otherwise the message of the provider's payload when it has
  one, else the text of the error when it has one, else the generic message. As in
  the source, having a message or a text means a string that is not empty.
\<close>

theorem failure_message:
  "(isValidEthereumAddress (address (ui w)) \<and> \<not> falsy key \<and>
    net (tokens_request (address (ui w))) = Rejected e \<longrightarrow>
      error (ui (fetchBalances key net w)) = Some (js ''Hata: '' @ errorMessage e)) \<and>
   (response_status e = Some 429 \<longrightarrow> errorMessage e = msg_rate_limit) \<and>
   msg_rate_limit \<noteq> msg_generic \<and>
   (response_status e \<noteq> Some 429 \<and> response_data_message e = Some m \<and> m \<noteq> [] \<longrightarrow>
      errorMessage e = m) \<and>
   (response_status e \<noteq> Some 429 \<and> falsy (response_data_message e) \<and>
    message e = Some m \<and> m \<noteq> [] \<longrightarrow> errorMessage e = m) \<and>
   (response_status e \<noteq> Some 429 \<and> falsy (response_data_message e) \<and> falsy (message e) \<longrightarrow>
      errorMessage e = msg_generic)"
proof -
  have "error (ui (fetchBalances key net w)) = Some (js ''Hata: '' @ errorMessage e)"
    if "isValidEthereumAddress (address (ui w))" "\<not> falsy key"
      "net (tokens_request (address (ui w))) = Rejected e"
    using fetch_failed [of w key net e, OF that] by (simp add: error_text_def)
  then show ?thesis
    using rate_limit_distinct by (auto simp: errorMessage_cases falsy_def)
qed

theorem failure_message_witness:
  "isValidEthereumAddress (address (ui example_world)) \<and> \<not> falsy example_key \<and>
   error (ui (fetchBalances example_key (\<lambda>rq. Rejected example_429) example_world)) =
     Some (js ''Hata: '' @ msg_rate_limit) \<and>
   error (ui (fetchBalances example_key (\<lambda>rq. Rejected example_401) example_world)) =
     Some (js ''Hata: Invalid key'') \<and>
   error (ui (fetchBalances example_key (\<lambda>rq. Rejected example_fault) example_world)) =
     Some (js ''Hata: Network Error'') \<and>
   error (ui (fetchBalances example_key (\<lambda>rq. Rejected example_empty) example_world)) =
     Some (js ''Hata: '' @ msg_generic)"
proof -
  have v: "isValidEthereumAddress (address (ui example_world))"
    by (simp add: example_world_address example_address_valid)
  have a: "error (ui (fetchBalances example_key (\<lambda>rq. Rejected example_429) example_world)) =
     Some (js ''Hata: '' @ msg_rate_limit)"
    using failure_message [of example_world example_key "\<lambda>rq. Rejected example_429" example_429] v
      example_key_set
    by (simp add: example_429_def response_status_def)
  have b: "error (ui (fetchBalances example_key (\<lambda>rq. Rejected example_401) example_world)) =
     Some (js ''Hata: Invalid key'')"
    using failure_message [of example_world example_key "\<lambda>rq. Rejected example_401" example_401
        "js ''Invalid key''"] v example_key_set
    by (simp add: example_401_def response_status_def response_data_message_def js_def)
  have c: "error (ui (fetchBalances example_key (\<lambda>rq. Rejected example_fault) example_world)) =
     Some (js ''Hata: Network Error'')"
    using failure_message [of example_world example_key "\<lambda>rq. Rejected example_fault" example_fault
        "js ''Network Error''"] v example_key_set
    by (simp add: example_fault_def response_status_def response_data_message_def falsy_def
        js_def)
  have d: "error (ui (fetchBalances example_key (\<lambda>rq. Rejected example_empty) example_world)) =
     Some (js ''Hata: '' @ msg_generic)"
    using failure_message [of example_world example_key "\<lambda>rq. Rejected example_empty" example_empty] v
      example_key_set
    by (simp add: example_empty_def response_status_def response_data_message_def falsy_def)
  from v example_key_set a b c d show ?thesis by blast
qed

section \<open>C8: no request on a rejected submission\<close>

text \<open>
  Claim C8. Submitting an address of 41 code units (or of 43, the prefix and 41 digits)
  ends with a validation message and sends no request: the message on the address
  when the key is set, the message on the key otherwise, since the key is checked
  first. Submitting a valid address while the key is unset ends with the message on
  the key and sends no request.
\<close>

theorem no_request_on_rejection:
  "(length s = 41 \<or> length s = 43 \<longrightarrow>
      error (ui (fetchBalances key net (step key (Change s) w))) =
        Some (if falsy key then msg_key_not_found else msg_invalid_address) \<and>
      sent (fetchBalances key net (step key (Change s) w)) = sent w) \<and>
   (isValidEthereumAddress s \<and> falsy key \<longrightarrow>
      error (ui (fetchBalances key net (step key (Change s) w))) = Some msg_key_not_found \<and>
      sent (fetchBalances key net (step key (Change s) w)) = sent w)"
proof -
  have addr: "address (ui (step key (Change s) w)) = s"
    by (simp add: step_def)
  have one: "error (ui (fetchBalances key net (step key (Change s) w))) =
        Some (if falsy key then msg_key_not_found else msg_invalid_address) \<and>
      sent (fetchBalances key net (step key (Change s) w)) = sent w"
    if "length s = 41 \<or> length s = 43"
  proof -
    from that have "\<not> isValidEthereumAddress s" and "s \<noteq> []"
      by (auto simp: isValid_iff)
    then show ?thesis
      using fetch_rejected [of "step key (Change s) w" key net]
      by (simp add: addr) (simp add: setError_def step_def)
  qed
  have two: "error (ui (fetchBalances key net (step key (Change s) w))) = Some msg_key_not_found \<and>
      sent (fetchBalances key net (step key (Change s) w)) = sent w"
    if "isValidEthereumAddress s" and "falsy key"
  proof -
    from that have "s \<noteq> []" by (auto simp: isValid_iff)
    with that show ?thesis
      using fetch_rejected [of "step key (Change s) w" key net]
      by (simp add: addr) (simp add: setError_def step_def)
  qed
  from one two show ?thesis by blast
qed

theorem no_request_on_rejection_witness:
  "length (js ''0x52908400098527886E0F7030069857D2E4169EE'') = 41 \<and>
   error (ui (fetchBalances example_key example_net
     (step example_key (Change (js ''0x52908400098527886E0F7030069857D2E4169EE''))
        (initial_world None)))) = Some msg_invalid_address \<and>
   sent (fetchBalances example_key example_net
     (step example_key (Change (js ''0x52908400098527886E0F7030069857D2E4169EE''))
        (initial_world None))) = [] \<and>
   isValidEthereumAddress example_address \<and> falsy None \<and>
   error (ui (fetchBalances None example_net
     (step None (Change example_address) (initial_world None)))) = Some msg_key_not_found \<and>
   sent (fetchBalances None example_net
     (step None (Change example_address) (initial_world None))) = []"
proof -
  have l: "length (js ''0x52908400098527886E0F7030069857D2E4169EE'') = 41"
    by (simp add: js_def)
  have f: "falsy None"
    by (simp add: falsy_def)
  have e: "sent (initial_world None) = []"
    by (simp add: initial_world_def)
  from no_request_on_rejection [of "js ''0x52908400098527886E0F7030069857D2E4169EE''" example_key example_net
      "initial_world None"] l example_key_set e
  have one: "error (ui (fetchBalances example_key example_net
     (step example_key (Change (js ''0x52908400098527886E0F7030069857D2E4169EE''))
        (initial_world None)))) = Some msg_invalid_address \<and>
   sent (fetchBalances example_key example_net
     (step example_key (Change (js ''0x52908400098527886E0F7030069857D2E4169EE''))
        (initial_world None))) = []"
    by simp
  from no_request_on_rejection [of example_address None example_net "initial_world None"] example_address_valid f e
  have two: "error (ui (fetchBalances None example_net
     (step None (Change example_address) (initial_world None)))) = Some msg_key_not_found \<and>
   sent (fetchBalances None example_net
     (step None (Change example_address) (initial_world None))) = []"
    by simp
  from l f one two example_address_valid show ?thesis by blast
qed

section \<open>C9: only valid tokens are kept\<close>

text \<open>
  Claim C9. After a successful fetch the tokens of \<^verbatim>\<open>allBalances\<close> are exactly the
  tokens of the answer that are not flagged as possible spam and whose USD value is a
  number above zero; a token that is flagged, or whose value is zero, negative or
  missing, is in neither list, since \<^verbatim>\<open>balances\<close> is drawn from \<^verbatim>\<open>allBalances\<close>, and
  does not count towards the total: the total is added up over \<^verbatim>\<open>allBalances\<close>, and
  the page ends in the state it would have if the answer had held the valid tokens
  only.
\<close>

theorem valid_tokens_only:
  assumes "isValidEthereumAddress (address (ui w))" and "\<not> falsy key"
    and "net (tokens_request (address (ui w))) = Resolved result"
  shows "set (allBalances (ui (fetchBalances key net w))) =
      {t \<in> set result. \<not> possible_spam t \<and> (\<exists>v. usd_value t = Some v \<and> v > 0)} \<and>
    set (balances (ui (fetchBalances key net w))) \<subseteq>
      set (allBalances (ui (fetchBalances key net w))) \<and>
    totalValue (ui (fetchBalances key net w)) =
      total_usd (allBalances (ui (fetchBalances key net w))) \<and>
    ui (fetchBalances key net w) =
      ui (fetchBalances key
            (\<lambda>rq. Resolved (filter (\<lambda>t. \<not> possible_spam t \<and> usd t > 0) result)) w)"
proof -
  note st = fetch_resolved [of w key net result, OF assms]
  have one: "set (allBalances (ui (fetchBalances key net w))) =
      {t \<in> set result. \<not> possible_spam t \<and> (\<exists>v. usd_value t = Some v \<and> v > 0)}"
    by (simp add: st set_sortedBalances usd_positive)
  have two: "set (balances (ui (fetchBalances key net w))) \<subseteq>
      set (allBalances (ui (fetchBalances key net w)))"
    by (simp add: st filteredBalances_def)
  have three: "totalValue (ui (fetchBalances key net w)) =
      total_usd (allBalances (ui (fetchBalances key net w)))"
    by (simp add: st)
  have "ui (fetchBalances key (\<lambda>rq. Resolved (validTokens result)) w) =
      ui (fetchBalances key net w)"
    using fetch_resolved [of w key "\<lambda>rq. Resolved (validTokens result)" "validTokens result",
        OF assms(1,2)]
    by (simp add: st sortedBalances_validTokens)
  then have four: "ui (fetchBalances key net w) =
      ui (fetchBalances key
            (\<lambda>rq. Resolved (filter (\<lambda>t. \<not> possible_spam t \<and> usd t > 0) result)) w)"
    by (simp add: validTokens_def)
  from one two three four show ?thesis by blast
qed

theorem valid_tokens_only_witness:
  "isValidEthereumAddress (address (ui example_world)) \<and> \<not> falsy example_key \<and>
   example_net (tokens_request (address (ui example_world))) = Resolved example_result \<and>
   set (allBalances (ui (fetchBalances example_key example_net example_world))) =
      {t \<in> set example_result.
         \<not> possible_spam t \<and> (\<exists>v. usd_value t = Some v \<and> v > 0)} \<and>
   example_token ''SPAM'' True (Some 100) \<notin>
     set (allBalances (ui (fetchBalances example_key example_net example_world))) \<and>
   example_token ''NUL'' False None \<notin>
     set (allBalances (ui (fetchBalances example_key example_net example_world))) \<and>
   example_token ''ZERO'' False (Some 0) \<notin>
     set (allBalances (ui (fetchBalances example_key example_net example_world))) \<and>
   totalValue (ui (fetchBalances example_key example_net example_world)) =
     total_usd [example_token ''BBB'' False (Some 15), example_token ''CCC'' False (Some 10),
       example_token ''AAA'' False (Some 5)] \<and>
   totalValue (ui (fetchBalances example_key example_net example_world)) = Finite 30"
proof -
  have v: "isValidEthereumAddress (address (ui example_world))"
    by (simp add: example_world_address example_address_valid)
  have n: "example_net (tokens_request (address (ui example_world))) = Resolved example_result"
    by (simp add: example_net_def)
  note c9 = valid_tokens_only [of example_world example_key example_net example_result,
      OF v example_key_set n]
  from c9 have m: "set (allBalances (ui (fetchBalances example_key example_net example_world))) =
      {t \<in> set example_result.
         \<not> possible_spam t \<and> (\<exists>v. usd_value t = Some v \<and> v > 0)}"
    by blast
  have s: "example_token ''SPAM'' True (Some 100) \<notin>
     set (allBalances (ui (fetchBalances example_key example_net example_world)))"
    using m by (simp add: example_token_def)
  have u: "example_token ''NUL'' False None \<notin>
     set (allBalances (ui (fetchBalances example_key example_net example_world)))"
    using m by (simp add: example_token_def)
  have z: "example_token ''ZERO'' False (Some 0) \<notin>
     set (allBalances (ui (fetchBalances example_key example_net example_world)))"
    using m by (simp add: example_token_def)
  have a: "allBalances (ui (fetchBalances example_key example_net example_world)) =
      [example_token ''BBB'' False (Some 15), example_token ''CCC'' False (Some 10),
       example_token ''AAA'' False (Some 5)]"
    by (simp add: example_fetch)
  from c9 have "totalValue (ui (fetchBalances example_key example_net example_world)) =
      total_usd (allBalances (ui (fetchBalances example_key example_net example_world)))"
    by blast
  then have t: "totalValue (ui (fetchBalances example_key example_net example_world)) =
     total_usd [example_token ''BBB'' False (Some 15), example_token ''CCC'' False (Some 10),
       example_token ''AAA'' False (Some 5)]"
    by (simp only: a)
  then have t30: "totalValue (ui (fetchBalances example_key example_net example_world)) =
      Finite 30"
    by (simp only: example_total)
  from c9 v n s u z t t30 example_key_set show ?thesis
    by blast
qed

section \<open>C10: storing a page twice\<close>

text \<open>
  Claim C10. For every page of the market listing and every table, storing the page
  in the table a second time gives the table that storing it once gives.
\<close>

theorem upsert_idempotent: "upsert_page u page (upsert_page u page m) = upsert_page u page m"
  by (simp add: upsert_page_def forEach_upsert_map_add map_add_twice)

theorem upsert_idempotent_witness:
  "upsert_page example_upper example_page (upsert_page example_upper example_page Map.empty) =
     upsert_page example_upper example_page Map.empty \<and>
   upsert_page example_upper example_page Map.empty (js ''bitcoin'') =
     Some \<lparr>id' = js ''bitcoin'', symbol' = js ''BTC'', name' = js ''bitcoin'',
           image = js ''https://img/bitcoin'', current_price = 60001\<rparr>"
proof -
  have "upsert_page example_upper example_page Map.empty (js ''bitcoin'') =
     Some \<lparr>id' = js ''bitcoin'', symbol' = js ''BTC'', name' = js ''bitcoin'',
           image = js ''https://img/bitcoin'', current_price = 60001\<rparr>"
    by (simp add: upsert_lookup example_page_def example_coin_def top_token_def
        example_upper_def ToNumber_def js_def)
  with upsert_idempotent [of example_upper example_page Map.empty] show ?thesis
    by simp
qed

end
